theory Spec2Isabelle
  imports Complex_Main "HOL-Library.Word"
begin

unbundle bit_operations_syntax

section \<open>Data model of module-eeprom.go\<close>

text \<open>
  Go's \<open>uint32\<close> is \<open>32 word\<close> (wrapping arithmetic), a byte is \<open>8 word\<close>, Go's \<open>int\<close>
  is \<open>int\<close> (the flag operations \<open>|\<close>, \<open>&\<close> and \<open>&^\<close> on the constants below cannot
  overflow). A Go string is a \<open>string\<close> whose characters are the runes of the Go string;
  every string this program decodes comes from \<open>fromLatin1\<close>, so its runes are below 256.
\<close>

type_synonym u8 = "8 word"
type_synonym u32 = "32 word"

definition TXR_MI_ALLOW_CACHE :: int where "TXR_MI_ALLOW_CACHE = 0x7FFF"
definition TXR_MI_ALL :: int where "TXR_MI_ALL = 0x3FFF"
definition TXR_MI_VENDOR :: int where "TXR_MI_VENDOR = 1"
definition TXR_MI_OUI :: int where "TXR_MI_OUI = 2"
definition TXR_MI_PRODUCT :: int where "TXR_MI_PRODUCT = 4"
definition TXR_MI_REVISION :: int where "TXR_MI_REVISION = 8"
definition TXR_MI_WAVELEN :: int where "TXR_MI_WAVELEN = 16"
definition TXR_MI_SERIAL :: int where "TXR_MI_SERIAL = 32"
definition TXR_MI_DATE :: int where "TXR_MI_DATE = 64"

definition ETH_MODULE_SFF_8472 :: u32 where "ETH_MODULE_SFF_8472 = 0x2"
definition ETH_MODULE_SFF_8472_LEN :: nat where "ETH_MODULE_SFF_8472_LEN = 512"
definition IFNAMSIZ :: nat where "IFNAMSIZ = 16"

record EthToolModule =
  ifname :: string
  tpe :: u32
  eeprom_len :: u32

text \<open>
  Errors are values. \<open>Errno\<close> is what the \<open>ethtool\<close> system call (or opening its
  socket) reports; the other constructors are the errors the Go code builds itself.
  A run-time panic of the Go code (a slice bound out of range) is the result \<open>Panic\<close>.
\<close>

datatype error =
    Errno nat
  | NoEeprom
  | OffsetOutOfBounds
  | UnsupportedModule u32
  | UnknownEntry string

datatype 'a result = Ok 'a | Err error | Panic

text \<open>
  A Go byte slice: \<open>backing\<close> holds the elements of the underlying array from the
  start of the slice up to its capacity, \<open>slen\<close> is the length of the slice. The
  \<open>nil\<close> slice has no backing array. Reslicing \<open>s[lo:hi]\<close> is checked against the
  capacity, not the length, as Go does.
\<close>

record slice =
  backing :: "u8 list"
  slen :: nat

definition nil_slice :: slice where
  "nil_slice = \<lparr>backing = [], slen = 0\<rparr>"

definition contents :: "slice \<Rightarrow> u8 list" where
  "contents s = take (slen s) (backing s)"

definition reslice :: "slice \<Rightarrow> nat \<Rightarrow> nat \<Rightarrow> slice option" where
  "reslice s lo hi =
     (if lo \<le> hi \<and> hi \<le> length (backing s)
      then Some \<lparr>backing = drop lo (backing s), slen = hi - lo\<rparr>
      else None)"

text \<open>
  The device: \<open>gmoduleinfo\<close> answers the ETHTOOL_GMODULEINFO request for an interface
  name with an errno or the module class and EEPROM length; \<open>gmoduleeeprom\<close> answers
  ETHTOOL_GMODULEEEPROM for (interface, offset, length) with an errno or the bytes the
  driver wrote into the request buffer.
\<close>

record device =
  gmoduleinfo :: "string \<Rightarrow> nat + (u32 \<times> u32)"
  gmoduleeeprom :: "string \<Rightarrow> u32 \<Rightarrow> u32 \<Rightarrow> nat + u8 list"

text \<open>
  The state threaded through the calls: the log of ETHTOOL_GMODULEEEPROM requests issued
  so far (offset and length of each), and the global \<open>moduleCache\<close>.
\<close>

type_synonym tagset = "string \<rightharpoonup> string"

record state =
  reads :: "(u32 \<times> u32) list"
  moduleCache :: "string \<rightharpoonup> tagset"

definition NewEthToolModule :: "device \<Rightarrow> string \<Rightarrow> error + EthToolModule" where
  "NewEthToolModule dev name =
     (case gmoduleinfo dev (take IFNAMSIZ name) of
        Inl en \<Rightarrow> Inl (Errno en)
      | Inr (t, l) \<Rightarrow> Inr \<lparr>ifname = take IFNAMSIZ name, tpe = t, eeprom_len = l\<rparr>)"

text \<open>
  \<open>EthToolModule.Read\<close>. The request buffer \<open>eeprom.data\<close> is an array of
  \<open>ETH_MODULE_SFF_8472_LEN\<close> zero bytes into which the driver writes; the result is
  \<open>eeprom.data[:len]\<close>, which panics when \<open>len\<close> exceeds the array.
  \<open>clamp_len\<close> is the statement \<open>if e.eeprom_len - offset < len { len = e.eeprom_len - offset }\<close>.
\<close>

definition clamp_len :: "EthToolModule \<Rightarrow> u32 \<Rightarrow> u32 \<Rightarrow> u32" where
  "clamp_len e offs len = (if eeprom_len e - offs < len then eeprom_len e - offs else len)"

definition Read :: "device \<Rightarrow> EthToolModule \<Rightarrow> u32 \<Rightarrow> u32 \<Rightarrow> state \<Rightarrow> slice result \<times> state" where
  "Read dev e offs len s =
     (if eeprom_len e < 1 then (Err NoEeprom, s)
      else if offs > eeprom_len e then (Err OffsetOutOfBounds, s)
      else if offs = eeprom_len e then (Ok nil_slice, s)
      else let len' = clamp_len e offs len;
               s' = s\<lparr>reads := reads s @ [(offs, len')]\<rparr>
           in case gmoduleeeprom dev (ifname e) offs len' of
                Inl en \<Rightarrow> (Err (Errno en), s')
              | Inr written \<Rightarrow>
                  (if unat len' \<le> ETH_MODULE_SFF_8472_LEN
                   then (Ok \<lparr>backing = take ETH_MODULE_SFF_8472_LEN
                                         (written @ replicate ETH_MODULE_SFF_8472_LEN 0),
                             slen = unat len'\<rparr>, s')
                   else (Panic, s')))"

subsection \<open>Field decoding\<close>

text \<open>\<open>fromLatin1\<close>: \<open>lastchar\<close> is one past the last byte that is neither NUL nor space.\<close>

fun lastchar :: "u8 list \<Rightarrow> nat \<Rightarrow> nat \<Rightarrow> nat" where
  "lastchar [] i acc = acc"
| "lastchar (b # bs) i acc = lastchar bs (i + 1) (if b \<noteq> 0 \<and> b \<noteq> 0x20 then i + 1 else acc)"

definition fromLatin1 :: "u8 list \<Rightarrow> string" where
  "fromLatin1 bytes = take (lastchar bytes 0 0) (map (\<lambda>b. char_of (unat b)) bytes)"

text \<open>\<open>validSerial\<close>, with the two counters of the loop.\<close>

fun validSerial_loop :: "string \<Rightarrow> nat \<Rightarrow> nat \<Rightarrow> nat \<times> nat" where
  "validSerial_loop [] other_chars alnum = (other_chars, alnum)"
| "validSerial_loop (c # cs) other_chars alnum =
     (let r = (of_char c :: nat) in
      if r < 0x20 \<or> r > 0x7E then validSerial_loop cs (other_chars + 1) alnum
      else if (r \<ge> 0x30 \<and> r \<le> 0x39) \<or> (r \<ge> 0x41 \<and> r \<le> 0x5A) \<or> (r \<le> 0x61 \<and> r \<ge> 0x7A)
      then validSerial_loop cs other_chars (alnum + 1)
      else validSerial_loop cs other_chars alnum)"

definition validSerial :: "string \<Rightarrow> bool" where
  "validSerial sn = (case validSerial_loop sn 0 0 of (other_chars, alnum) \<Rightarrow> alnum > 3 \<and> other_chars = 0)"

text \<open>\<open>fmt.Sprintf("%d", acc)\<close> and \<open>fmt.Sprintf("%02x", b)\<close>.\<close>

fun show_nat :: "nat \<Rightarrow> string" where
  "show_nat n = (if n < 10 then [char_of (48 + n)]
                 else show_nat (n div 10) @ [char_of (48 + n mod 10)])"

declare show_nat.simps [simp del]

definition show_int :: "int \<Rightarrow> string" where
  "show_int i = (if i < 0 then CHR ''-'' # show_nat (nat (- i)) else show_nat (nat i))"

definition hexdigit :: "nat \<Rightarrow> char" where
  "hexdigit d = (if d < 10 then char_of (48 + d) else char_of (87 + d))"

definition hex2 :: "u8 \<Rightarrow> string" where
  "hex2 b = [hexdigit (unat b div 16), hexdigit (unat b mod 16)]"

definition txr_DECODE_STRING :: int where "txr_DECODE_STRING = 0"
definition txr_DECODE_INT :: int where "txr_DECODE_INT = 1"
definition txr_DECODE_OUI :: int where "txr_DECODE_OUI = 2"

record eepromEntryDef =
  name :: string
  offset :: u32
  length_f :: u32
  flag :: int
  decoder :: int

text \<open>
  \<open>decodeStatic\<close>; indexing \<open>buf[0]\<close>, \<open>buf[1]\<close>, \<open>buf[2]\<close> panics on a slice shorter
  than three bytes, and so does an unknown decoder.
\<close>

definition decodeStatic :: "slice \<Rightarrow> int \<Rightarrow> string result" where
  "decodeStatic buf dec =
     (if dec = txr_DECODE_STRING then Ok (fromLatin1 (contents buf))
      else if dec = txr_DECODE_OUI then
        (case contents buf of
           b0 # b1 # b2 # _ \<Rightarrow> Ok (hex2 b0 @ '':'' @ hex2 b1 @ '':'' @ hex2 b2)
         | _ \<Rightarrow> Panic)
      else if dec = txr_DECODE_INT then
        Ok (show_int (foldl (\<lambda>acc d. 256 * acc + uint d) 0 (contents buf)))
      else Panic)"

definition GAP_MERGE :: u32 where "GAP_MERGE = 4"
definition infty :: u32 where "infty = 0xffff"

definition txrEepromStatic :: "eepromEntryDef list" where
  "txrEepromStatic =
    [\<lparr>name = ''vendor'',   offset = 0x14,  length_f = 16, flag = TXR_MI_VENDOR,   decoder = txr_DECODE_STRING\<rparr>,
     \<lparr>name = ''oui'',      offset = 0x25,  length_f = 3,  flag = TXR_MI_OUI,      decoder = txr_DECODE_OUI\<rparr>,
     \<lparr>name = ''product'',  offset = 0x28,  length_f = 16, flag = TXR_MI_PRODUCT,  decoder = txr_DECODE_STRING\<rparr>,
     \<lparr>name = ''revision'', offset = 0x38,  length_f = 4,  flag = TXR_MI_REVISION, decoder = txr_DECODE_STRING\<rparr>,
     \<lparr>name = ''wavelen'',  offset = 0x3c,  length_f = 2,  flag = TXR_MI_WAVELEN,  decoder = txr_DECODE_INT\<rparr>,
     \<lparr>name = ''serial'',   offset = 0x44,  length_f = 16, flag = TXR_MI_SERIAL,   decoder = txr_DECODE_STRING\<rparr>,
     \<lparr>name = ''mfgdate'',  offset = 0x54,  length_f = 8,  flag = TXR_MI_WAVELEN,  decoder = txr_DECODE_STRING\<rparr>,
     \<lparr>name = ''--last--'', offset = infty, length_f = 0,  flag = 0,                decoder = 0\<rparr>]"

subsection \<open>Flag sets\<close>

text \<open>The inner loop of \<open>GetTxrInfoFlags\<close> over the table, for one name.\<close>

fun GetTxrInfoFlags_defs :: "string \<Rightarrow> eepromEntryDef list \<Rightarrow> bool \<Rightarrow> int \<Rightarrow> bool \<times> int" where
  "GetTxrInfoFlags_defs info [] found ret = (found, ret)"
| "GetTxrInfoFlags_defs info (d # ds) found ret =
     (if info = name d then GetTxrInfoFlags_defs info ds True (ret OR flag d)
      else GetTxrInfoFlags_defs info ds found ret)"

fun GetTxrInfoFlags_loop :: "string list \<Rightarrow> int \<Rightarrow> int result" where
  "GetTxrInfoFlags_loop [] ret = Ok ret"
| "GetTxrInfoFlags_loop (info # rest) ret =
     (if info = ''ALL'' then GetTxrInfoFlags_loop rest (ret OR TXR_MI_ALL)
      else if info = ''CACHE'' then GetTxrInfoFlags_loop rest (ret OR TXR_MI_ALLOW_CACHE)
      else case GetTxrInfoFlags_defs info txrEepromStatic False ret of
             (found, ret') \<Rightarrow>
               if \<not> found then Err (UnknownEntry info) else GetTxrInfoFlags_loop rest ret')"

definition GetTxrInfoFlags :: "string list \<Rightarrow> int result" where
  "GetTxrInfoFlags str = GetTxrInfoFlags_loop str 0"

subsection \<open>The query planner \<open>moduleInfo\<close>\<close>

record bufferInfo =
  def_i :: nat
  buf_pos :: u32

text \<open>
  The inner loop \<open>for j := 0; j < query_len; j++\<close>: the pending entries
  \<open>query[0..query_len)\<close> are the list \<open>query\<close>; \<open>buf[buf_pos:buf_end]\<close> panics when
  the bounds leave the capacity of \<open>buf\<close>.
\<close>

fun decode_query :: "slice \<Rightarrow> bufferInfo list \<Rightarrow> tagset \<Rightarrow> tagset result" where
  "decode_query buf [] ret = Ok ret"
| "decode_query buf (q # query) ret =
     (if def_i q < length txrEepromStatic then
        (let ddef = txrEepromStatic ! def_i q;
             buf_end = buf_pos q + length_f ddef
         in case reslice buf (unat (buf_pos q)) (unat buf_end) of
              None \<Rightarrow> Panic
            | Some sub \<Rightarrow>
                (case decodeStatic sub (decoder ddef) of
                   Ok v \<Rightarrow> decode_query buf query (ret(name ddef \<mapsto> v))
                 | Err er \<Rightarrow> Err er
                 | Panic \<Rightarrow> Panic))
      else Panic)"

text \<open>
  The first \<open>if\<close> of the outer loop body: when fields are pending and the entry
  \<open>qdef\<close> starts more than \<open>GAP_MERGE\<close> bytes after them, read the pending span and
  decode its fields. The result is the updated \<open>ret\<close> and \<open>query\<close>.
\<close>

definition flush :: "device \<Rightarrow> EthToolModule \<Rightarrow> eepromEntryDef \<Rightarrow> tagset \<Rightarrow> bufferInfo list
    \<Rightarrow> u32 \<Rightarrow> u32 \<Rightarrow> state \<Rightarrow> (tagset \<times> bufferInfo list) result \<times> state" where
  "flush dev e qdef ret query query_start query_end s =
     (if query \<noteq> [] \<and> query_end < offset qdef - GAP_MERGE then
        (case Read dev e query_start (query_end - query_start) s of
           (Err er, s') \<Rightarrow> (Err er, s')
         | (Panic, s') \<Rightarrow> (Panic, s')
         | (Ok buf, s') \<Rightarrow>
             (case decode_query buf query ret of
                Ok ret' \<Rightarrow> (Ok (ret', []), s')
              | Err er \<Rightarrow> (Err er, s')
              | Panic \<Rightarrow> (Panic, s')))
      else (Ok (ret, query), s))"

fun moduleInfo_loop :: "device \<Rightarrow> EthToolModule \<Rightarrow> int \<Rightarrow> (nat \<times> eepromEntryDef) list
    \<Rightarrow> tagset \<Rightarrow> bufferInfo list \<Rightarrow> u32 \<Rightarrow> u32 \<Rightarrow> state \<Rightarrow> tagset result \<times> state" where
  "moduleInfo_loop dev e flags [] ret query query_start query_end s = (Ok ret, s)"
| "moduleInfo_loop dev e flags ((i, qdef) # rest) ret query query_start query_end s =
     (case flush dev e qdef ret query query_start query_end s of
        (Err er, s') \<Rightarrow> (Err er, s')
      | (Panic, s') \<Rightarrow> (Panic, s')
      | (Ok (ret', query'), s') \<Rightarrow>
          (if flag qdef AND flags \<noteq> 0 then
             (let query_start' = (if query' = [] then offset qdef else query_start)
              in moduleInfo_loop dev e flags rest ret'
                   (query' @ [\<lparr>def_i = i, buf_pos = offset qdef - query_start'\<rparr>])
                   query_start' (offset qdef + length_f qdef) s')
           else moduleInfo_loop dev e flags rest ret' query' query_start query_end s'))"

definition moduleInfo :: "device \<Rightarrow> EthToolModule \<Rightarrow> int \<Rightarrow> state \<Rightarrow> tagset result \<times> state" where
  "moduleInfo dev e flags s =
     (if tpe e \<noteq> ETH_MODULE_SFF_8472 then (Err (UnsupportedModule (tpe e)), s)
      else moduleInfo_loop dev e flags (enumerate 0 txrEepromStatic) Map.empty [] 0 0 s)"

subsection \<open>The serial-keyed cache \<open>ModuleInfo\<close>\<close>

text \<open>
  The part of \<open>ModuleInfo\<close> after the cache lookup; \<open>have_sn\<close> is \<open>Some sn\<close> when the
  serial has been read.
\<close>

definition ModuleInfo_read :: "device \<Rightarrow> EthToolModule \<Rightarrow> int \<Rightarrow> string option \<Rightarrow> state
    \<Rightarrow> tagset result \<times> state" where
  "ModuleInfo_read dev e flags have_sn s =
     (let flags' = (if have_sn \<noteq> None then flags AND NOT TXR_MI_SERIAL else flags)
      in case moduleInfo dev e flags' s of
           (Err er, s') \<Rightarrow> (Err er, s')
         | (Panic, s') \<Rightarrow> (Panic, s')
         | (Ok ret, s') \<Rightarrow>
             (case have_sn of
                None \<Rightarrow> (Ok ret, s')
              | Some sn \<Rightarrow>
                  (let ret' = ret(''serial'' \<mapsto> sn)
                   in (Ok ret', s'\<lparr>moduleCache := (moduleCache s')(sn \<mapsto> ret')\<rparr>))))"

definition ModuleInfo :: "device \<Rightarrow> EthToolModule \<Rightarrow> int \<Rightarrow> state \<Rightarrow> tagset result \<times> state" where
  "ModuleInfo dev e flags s =
     (if flags = TXR_MI_ALLOW_CACHE then
        (case moduleInfo dev e TXR_MI_SERIAL s of
           (Err er, s') \<Rightarrow> (Err er, s')
         | (Panic, s') \<Rightarrow> (Panic, s')
         | (Ok serial, s') \<Rightarrow>
             (case serial ''serial'' of
                None \<Rightarrow> ModuleInfo_read dev e flags None s'
              | Some sn \<Rightarrow>
                  (if validSerial sn then
                     (case moduleCache s' sn of
                        Some ret \<Rightarrow> (Ok ret, s')
                      | None \<Rightarrow> ModuleInfo_read dev e flags (Some sn) s')
                   else ModuleInfo_read dev e flags (Some sn) s')))
      else ModuleInfo_read dev e flags None s)"

subsection \<open>The diagnostic decoder \<open>TxrDiag\<close>\<close>

text \<open>
  The measurements are \<open>float64\<close> in the source and real numbers here: the rounding of
  the products to \<open>float64\<close> is not modelled (the temperature, an integer over 256, is
  exact in both). \<open>math.Log10\<close> is \<open>-Inf\<close> at 0 and NaN below 0.
\<close>

datatype f64 = Finite real | NegInf | NaN

definition Log10_times_10 :: "real \<Rightarrow> f64" where
  "Log10_times_10 x = (if x = 0 then NegInf else if x < 0 then NaN else Finite (log 10 x * 10))"

record TranscieverDiagnostics =
  temperature_C :: real
  voltage_V :: real
  bias_mA :: real
  transmit_mW :: real
  receive_mW :: real
  transmit_dBm :: f64
  receive_dBm :: f64

definition txr_MULT_C :: real where "txr_MULT_C = 1 / 256"
definition txr_MULT_V :: real where "txr_MULT_V = 1 / 10000"
definition txr_MULT_mA :: real where "txr_MULT_mA = 1 / 500"
definition txr_MULT_mW :: real where "txr_MULT_mW = 1 / 10000"

text \<open>
  The loop \<open>for i := 0; i < 5; i++\<close>, run for \<open>k\<close> more rounds from index \<open>i\<close>:
  \<open>data[i*2:i*2+2]\<close> panics (\<open>None\<close>) when \<open>i*2+2\<close> exceeds the capacity of \<open>data\<close>.
\<close>

fun TxrDiag_loop :: "slice \<Rightarrow> nat \<Rightarrow> nat \<Rightarrow> real list \<Rightarrow> real list option" where
  "TxrDiag_loop data i 0 w = Some w"
| "TxrDiag_loop data i (Suc k) w =
     (case reslice data (i * 2) (i * 2 + 2) of
        None \<Rightarrow> None
      | Some b \<Rightarrow>
          (case contents b of
             [b0, b1] \<Rightarrow> TxrDiag_loop data (i + 1) k (w @ [real (256 * unat b0 + unat b1)])
           | _ \<Rightarrow> None))"

definition TxrDiag :: "device \<Rightarrow> EthToolModule \<Rightarrow> state \<Rightarrow> TranscieverDiagnostics result \<times> state" where
  "TxrDiag dev e s =
     (if tpe e \<noteq> ETH_MODULE_SFF_8472 then (Err (UnsupportedModule (tpe e)), s)
      else case Read dev e 0x160 10 s of
             (Err er, s') \<Rightarrow> (Err er, s')
           | (Panic, s') \<Rightarrow> (Panic, s')
           | (Ok data, s') \<Rightarrow>
               (case TxrDiag_loop data 0 5 [] of
                  Some [w0, w1, w2, w3, w4] \<Rightarrow>
                    (let tx = w3 * txr_MULT_mW; rx = w4 * txr_MULT_mW
                     in (Ok \<lparr>temperature_C = w0 * txr_MULT_C,
                              voltage_V = w1 * txr_MULT_V,
                              bias_mA = w2 * txr_MULT_mA,
                              transmit_mW = tx,
                              receive_mW = rx,
                              transmit_dBm = Log10_times_10 tx,
                              receive_dBm = Log10_times_10 rx\<rparr>, s'))
                | _ \<Rightarrow> (Panic, s')))"

section \<open>The collector and the line-protocol encoder of ethtool-exporter.go\<close>

text \<open>
  A Collection Record is the argument list of one \<open>Emit\<close> call; the channel \<open>ch\<close> is
  the list of records emitted so far. \<open>collectIface\<close> is the body of the loop of
  \<open>CollectIfacesSerially\<close>; a panic in it ends the run, and no record is emitted for the
  interface. \<open>flags\<close> is \<open>e.txrInfoFlags\<close>, which \<open>NewExporter\<close> computes from the
  label list.
\<close>

record CollectionRecord =
  rec_iface :: string
  rec_err :: "error option"
  rec_tags :: tagset
  rec_metrics :: "TranscieverDiagnostics option"

definition namespace :: string where "namespace = ''ethtool''"

definition transcieverFullLabels :: "string list" where
  "transcieverFullLabels =
     [''iface'', ''error'', ''vendor'', ''revision'', ''product'', ''serial'', ''wavelen'', ''mfgdate'']"

definition NewExporter_flags :: "int result" where
  "NewExporter_flags = GetTxrInfoFlags (''CACHE'' # drop 2 transcieverFullLabels)"

definition collectIface :: "device \<Rightarrow> int \<Rightarrow> string \<Rightarrow> state \<Rightarrow> CollectionRecord result \<times> state" where
  "collectIface dev flags iface s =
     (case NewEthToolModule dev iface of
        Inl err \<Rightarrow>
          (Ok \<lparr>rec_iface = iface, rec_err = Some err, rec_tags = Map.empty, rec_metrics = None\<rparr>, s)
      | Inr m \<Rightarrow>
          (case ModuleInfo dev m flags s of
             (Panic, s1) \<Rightarrow> (Panic, s1)
           | (Err err, s1) \<Rightarrow>
               (Ok \<lparr>rec_iface = iface, rec_err = Some err, rec_tags = Map.empty, rec_metrics = None\<rparr>, s1)
           | (Ok tags, s1) \<Rightarrow>
               (case TxrDiag dev m s1 of
                  (Panic, s2) \<Rightarrow> (Panic, s2)
                | (Err err, s2) \<Rightarrow>
                    (Ok \<lparr>rec_iface = iface, rec_err = Some err, rec_tags = tags, rec_metrics = None\<rparr>, s2)
                | (Ok metrics, s2) \<Rightarrow>
                    (Ok \<lparr>rec_iface = iface, rec_err = None, rec_tags = tags,
                         rec_metrics = Some metrics\<rparr>, s2))))"

fun CollectIfacesSerially :: "device \<Rightarrow> int \<Rightarrow> string list \<Rightarrow> state \<Rightarrow> CollectionRecord list
    \<Rightarrow> unit result \<times> state \<times> CollectionRecord list" where
  "CollectIfacesSerially dev flags [] s ch = (Ok (), s, ch)"
| "CollectIfacesSerially dev flags (iface # ifaces) s ch =
     (case collectIface dev flags iface s of
        (Ok r, s') \<Rightarrow> CollectIfacesSerially dev flags ifaces s' (ch @ [r])
      | (Err err, s') \<Rightarrow> (Err err, s', ch)
      | (Panic, s') \<Rightarrow> (Panic, s', ch))"

text \<open>
  \<open>InfluxChan.Emit\<close> and the line \<open>Influxdb\<close> writes for it. \<open>err.Error()\<close> is
  \<open>Error_text\<close>; the text of an errno (\<open>strerror\<close>) and the formatting of a \<open>float64\<close>
  with \<open>%.Nf\<close> (\<open>fmt_f N\<close>) belong to the Go library and are parameters. The three
  regular expressions replace single characters: \<open>dangerousChars\<close> the quotes
  \<open>"\<close>, \<open>'\<close> and the backquote, \<open>whiteChars\<close> the ASCII control characters
  and the space (\<open>[[:cntrl:][:space:]]\<close>), \<open>escapeChars\<close> comma and equals sign.
  \<open>Emit\<close> with a nil error and nil metrics dereferences nil (\<open>None\<close>).
\<close>

definition Error_text :: "(nat \<Rightarrow> string) \<Rightarrow> error \<Rightarrow> string" where
  "Error_text strerror err =
     (case err of
        Errno en \<Rightarrow> strerror en
      | NoEeprom \<Rightarrow> ''ethtool: No EEPROM to read.''
      | OffsetOutOfBounds \<Rightarrow> ''ethtool: Offset out of bounds.''
      | UnsupportedModule t \<Rightarrow> ''Unsupported module type: '' @ show_nat (unat t)
      | UnknownEntry info \<Rightarrow> ''Unknown entry '' @ [CHR 0x27] @ info @ [CHR 0x27])"

definition dangerousChars :: "string \<Rightarrow> string" where
  "dangerousChars v = map (\<lambda>c. if c = CHR 0x22 \<or> c = CHR 0x27 \<or> c = CHR 0x60 then CHR ''~'' else c) v"

definition is_cntrl_or_space :: "char \<Rightarrow> bool" where
  "is_cntrl_or_space c = ((of_char c :: nat) \<le> 0x1F \<or> (of_char c :: nat) = 0x7F \<or> c = CHR '' '')"

definition whiteChars :: "string \<Rightarrow> string" where
  "whiteChars v = concat (map (\<lambda>c. if is_cntrl_or_space c then [CHR 0x5C, CHR '' ''] else [c]) v)"

definition escapeChars :: "string \<Rightarrow> string" where
  "escapeChars v = concat (map (\<lambda>c. if c = CHR '','' \<or> c = CHR ''='' then [CHR 0x5C, c] else [c]) v)"

fun join :: "string list \<Rightarrow> string \<Rightarrow> string" where
  "join [] sep = []"
| "join [x] sep = x"
| "join (x # y # ys) sep = x @ sep @ join (y # ys) sep"

fun InfluxChan_tagList :: "(nat \<Rightarrow> string) \<Rightarrow> CollectionRecord \<Rightarrow> string list \<Rightarrow> string list" where
  "InfluxChan_tagList strerror r [] = []"
| "InfluxChan_tagList strerror r (label # labels) =
     (let v = (if label = ''iface'' then rec_iface r
               else if label = ''error'' then
                 (case rec_err r of None \<Rightarrow> [] | Some err \<Rightarrow> Error_text strerror err)
               else (case rec_tags r label of None \<Rightarrow> [] | Some x \<Rightarrow> x))
      in if length v > 0
         then (label @ ''='' @ escapeChars (whiteChars (dangerousChars v)))
                # InfluxChan_tagList strerror r labels
         else InfluxChan_tagList strerror r labels)"

definition InfluxChan_Emit :: "(nat \<Rightarrow> string) \<Rightarrow> (nat \<Rightarrow> f64 \<Rightarrow> string) \<Rightarrow> CollectionRecord \<Rightarrow> string option" where
  "InfluxChan_Emit strerror fmt_f r =
     (let tagStr = join (InfluxChan_tagList strerror r transcieverFullLabels) '',''
      in case rec_err r of
           None \<Rightarrow>
             (case rec_metrics r of
                None \<Rightarrow> None
              | Some metrics \<Rightarrow>
                  Some (namespace @ ''_transciever,'' @ tagStr
                    @ '' present=1i,temperature_C='' @ fmt_f 2 (Finite (temperature_C metrics))
                    @ '',voltage_V='' @ fmt_f 3 (Finite (voltage_V metrics))
                    @ '',bias_A='' @ fmt_f 6 (Finite (bias_mA metrics * 0.001))
                    @ '',receive_power_dBm='' @ fmt_f 2 (receive_dBm metrics)
                    @ '',transmit_power_dBm='' @ fmt_f 2 (transmit_dBm metrics)
                    @ '',receive_power_W='' @ fmt_f 7 (Finite (receive_mW metrics * 0.001))
                    @ '',transmit_power_W='' @ fmt_f 7 (Finite (transmit_mW metrics * 0.001))))
         | Some err \<Rightarrow>
             Some (namespace @ ''_transciever,'' @ tagStr @ '' present=0i'' @ [CHR 0x0A]))"

definition Influxdb_line :: "(nat \<Rightarrow> string) \<Rightarrow> (nat \<Rightarrow> f64 \<Rightarrow> string) \<Rightarrow> int \<Rightarrow> CollectionRecord \<Rightarrow> string option" where
  "Influxdb_line strerror fmt_f nowi r =
     (case InfluxChan_Emit strerror fmt_f r of
        None \<Rightarrow> None
      | Some line \<Rightarrow> Some (line @ '' '' @ show_int nowi @ [CHR 0x0A]))"

section \<open>The read plan of \<open>moduleInfo\<close>\<close>

text \<open>
  \<open>moduleInfo_spans\<close> follows the control flow of the loop of \<open>moduleInfo\<close> and keeps
  only the arguments of its \<open>Read\<close> calls; \<open>pending\<close> is \<open>query_len > 0\<close>.
\<close>

fun moduleInfo_spans :: "int \<Rightarrow> eepromEntryDef list \<Rightarrow> bool \<Rightarrow> u32 \<Rightarrow> u32 \<Rightarrow> (u32 \<times> u32) list" where
  "moduleInfo_spans flags [] pending query_start query_end = []"
| "moduleInfo_spans flags (qdef # rest) pending query_start query_end =
     (let fl = (pending \<and> query_end < offset qdef - GAP_MERGE);
          out = (if fl then [(query_start, query_end - query_start)] else []);
          pending' = (pending \<and> \<not> fl)
      in if flag qdef AND flags \<noteq> 0
         then out @ moduleInfo_spans flags rest True
                      (if pending' then query_start else offset qdef) (offset qdef + length_f qdef)
         else out @ moduleInfo_spans flags rest pending' query_start query_end)"

text \<open>
  \<open>moduleInfo_names\<close> follows the same control flow and keeps the names of the fields
  that are decoded; \<open>pending\<close> holds the table indices of the pending entries.
\<close>

fun moduleInfo_names :: "int \<Rightarrow> (nat \<times> eepromEntryDef) list \<Rightarrow> nat list \<Rightarrow> u32 \<Rightarrow> string list" where
  "moduleInfo_names flags [] pending query_end = []"
| "moduleInfo_names flags ((i, qdef) # rest) pending query_end =
     (let fl = (pending \<noteq> [] \<and> query_end < offset qdef - GAP_MERGE);
          out = (if fl then map (\<lambda>j. name (txrEepromStatic ! j)) pending else []);
          pending' = (if fl then [] else pending)
      in if flag qdef AND flags \<noteq> 0
         then out @ moduleInfo_names flags rest (pending' @ [i]) (offset qdef + length_f qdef)
         else out @ moduleInfo_names flags rest pending' query_end)"

text \<open>
  The pending entries can be decoded from a non-empty buffer only: the first of them is
  not a zero-length field.
\<close>

definition live :: "bufferInfo list \<Rightarrow> bool" where
  "live query = (case query of [] \<Rightarrow> True
     | q # _ \<Rightarrow> \<not> (def_i q < length txrEepromStatic \<and> length_f (txrEepromStatic ! def_i q) = 0))"

text \<open>
  The planner as the specification words it, over the selected fields only (offset and
  length of each): a field whose offset exceeds the end of the pending span by more than
  \<open>GAP_MERGE\<close> flushes the span and starts a new one, any other field extends the
  span, and the last span is flushed at the end. A span is (start, end).
\<close>

definition selected_fields :: "int \<Rightarrow> eepromEntryDef list" where
  "selected_fields flags = filter (\<lambda>d. flag d AND flags \<noteq> 0) txrEepromStatic"

fun coalesce :: "(nat \<times> nat) list \<Rightarrow> (nat \<times> nat) option \<Rightarrow> (nat \<times> nat) list" where
  "coalesce [] None = []"
| "coalesce [] (Some sp) = [sp]"
| "coalesce ((off, len) # fs) None = coalesce fs (Some (off, off + len))"
| "coalesce ((off, len) # fs) (Some (span_start, span_end)) =
     (if off > span_end + unat GAP_MERGE
      then (span_start, span_end) # coalesce fs (Some (off, off + len))
      else coalesce fs (Some (span_start, off + len)))"


subsection \<open>Invariants of the planner\<close>

text \<open>
  The end of a field, and the fields that \<open>decodeStatic\<close> can decode from a buffer that
  holds them: not empty, within the 512-byte buffer of \<open>Read\<close>, with a known decoder and,
  for an OUI, the three bytes that the decoder indexes.
\<close>

definition fend :: "eepromEntryDef \<Rightarrow> nat" where
  "fend d = unat (offset d) + unat (length_f d)"

definition decodable :: "eepromEntryDef \<Rightarrow> bool" where
  "decodable d = (0 < unat (length_f d) \<and> fend d \<le> 512
     \<and> (decoder d = txr_DECODE_STRING \<or> decoder d = txr_DECODE_INT
          \<or> (decoder d = txr_DECODE_OUI \<and> 3 \<le> unat (length_f d))))"

text \<open>
  The invariant of the loop of \<open>moduleInfo\<close> over an EEPROM of \<open>L\<close> bytes: the pending
  span (\<open>query_start\<close>, \<open>query_end\<close>) is not empty and lies within the EEPROM and the
  buffer, and each pending entry is a decodable field inside the span, with its position
  in the buffer. \<open>table_ok lo hi\<close> says of a rest of the table that its offsets do not
  decrease from \<open>lo\<close>, that its field ends do not decrease from \<open>hi\<close>, and that every
  entry with a flag is a decodable entry of the table at its index.
\<close>

definition pending_ok :: "nat \<Rightarrow> bufferInfo list \<Rightarrow> u32 \<Rightarrow> u32 \<Rightarrow> bool" where
  "pending_ok L query qs qe =
     (query = [] \<or>
      (unat qs < unat qe \<and> unat qe \<le> L \<and> unat qe \<le> 512 \<and>
       (\<forall>q \<in> set query. def_i q < length txrEepromStatic
           \<and> decodable (txrEepromStatic ! def_i q)
           \<and> unat qs \<le> unat (offset (txrEepromStatic ! def_i q))
           \<and> buf_pos q = offset (txrEepromStatic ! def_i q) - qs
           \<and> fend (txrEepromStatic ! def_i q) \<le> unat qe)))"

fun table_ok :: "nat \<Rightarrow> nat \<Rightarrow> (nat \<times> eepromEntryDef) list \<Rightarrow> bool" where
  "table_ok lo hi [] = True"
| "table_ok lo hi ((i, d) # rest) =
     (lo \<le> unat (offset d) \<and> hi \<le> fend d
      \<and> (if flag d = 0 then True
          else i < length txrEepromStatic \<and> txrEepromStatic ! i = d \<and> decodable d)
      \<and> table_ok (unat (offset d)) (fend d) rest)"


section \<open>An example device\<close>

text \<open>
  A 512-byte EEPROM image with the serial number ABC123 at 0x44 and the diagnostic page
  \<open>27 09 80 79 0b 5d 14 ce 16 02\<close> at 0x160, every other byte zero, behind a driver that
  answers every request with the bytes asked for. The driver reports a module of class
  0x2 with 512 bytes on every interface but two: on eth1 it reports 256 bytes, and on
  eth2 the module query fails with ENODEV (19).
\<close>

definition example_eeprom :: "u8 list" where
  "example_eeprom =
     replicate 68 0 @ [0x41, 0x42, 0x43, 0x31, 0x32, 0x33] @ replicate 278 0
       @ [0x27, 0x09, 0x80, 0x79, 0x0b, 0x5d, 0x14, 0xce, 0x16, 0x02] @ replicate 150 0"

definition example_device :: device where
  "example_device =
     \<lparr>gmoduleinfo = (\<lambda>ifn. if ifn = ''eth1'' then Inr (2, 256)
                            else if ifn = ''eth2'' then Inl 19
                            else Inr (2, 512)),
      gmoduleeeprom = (\<lambda>_ offs len. Inr (take (unat len) (drop (unat offs) example_eeprom)))\<rparr>"

definition example_module :: EthToolModule where
  "example_module = \<lparr>ifname = ''eth0'', tpe = 2, eeprom_len = 512\<rparr>"

definition empty_state :: state where
  "empty_state = \<lparr>reads = [], moduleCache = Map.empty\<rparr>"

text \<open>
  A module with a 1024-byte EEPROM, all zero; the driver rejects a request beyond it
  with EINVAL.
\<close>

definition large_device :: device where
  "large_device =
     \<lparr>gmoduleinfo = (\<lambda>_. Inr (2, 1024)),
      gmoduleeeprom = (\<lambda>_ offs len.
         if unat offs + unat len \<le> 1024 then Inr (replicate (unat len) 0) else Inl 22)\<rparr>"

text \<open>
  The Tag Set of the example module, and the state after its first \<open>ModuleInfo\<close> call
  from an empty cache.
\<close>

definition example_tags :: tagset where
  "example_tags = [''vendor'' \<mapsto> [], ''oui'' \<mapsto> ''00:00:00'', ''product'' \<mapsto> [],
     ''revision'' \<mapsto> [], ''wavelen'' \<mapsto> ''0'', ''mfgdate'' \<mapsto> [], ''serial'' \<mapsto> ''ABC123'']"

definition warm_state :: state where
  "warm_state = \<lparr>reads = [(0x44, 16), (0x14, 42), (0x54, 8)],
                  moduleCache = [''ABC123'' \<mapsto> example_tags]\<rparr>"

text \<open>
  A second module, identical but for its serial number abcdef, and its Tag Set.
\<close>

definition lowercase_eeprom :: "u8 list" where
  "lowercase_eeprom =
     replicate 68 0 @ [0x61, 0x62, 0x63, 0x64, 0x65, 0x66] @ replicate 438 0"

definition lowercase_device :: device where
  "lowercase_device =
     \<lparr>gmoduleinfo = (\<lambda>_. Inr (2, 512)),
      gmoduleeeprom = (\<lambda>_ offs len. Inr (take (unat len) (drop (unat offs) lowercase_eeprom)))\<rparr>"

definition lowercase_tags :: tagset where
  "lowercase_tags = [''vendor'' \<mapsto> [], ''oui'' \<mapsto> ''00:00:00'', ''product'' \<mapsto> [],
     ''revision'' \<mapsto> [], ''wavelen'' \<mapsto> ''0'', ''mfgdate'' \<mapsto> [], ''serial'' \<mapsto> ''abcdef'']"

text \<open>The diagnostics of the example module.\<close>

definition example_metrics :: TranscieverDiagnostics where
  "example_metrics =
     \<lparr>temperature_C = 9993 / 256, voltage_V = 32889 / 10000, bias_mA = 2909 / 500,
      transmit_mW = 5326 / 10000, receive_mW = 5634 / 10000,
      transmit_dBm = Finite (log 10 (5326 / 10000) * 10),
      receive_dBm = Finite (log 10 (5634 / 10000) * 10)\<rparr>"

section \<open>Serial validation\<close>

lemma validSerial_loop_counts:
  "validSerial_loop sn oc an =
     (oc + length (filter (\<lambda>c. (of_char c :: nat) < 0x20 \<or> (of_char c :: nat) > 0x7E) sn),
      an + length (filter (\<lambda>c. (0x30 \<le> (of_char c :: nat) \<and> (of_char c :: nat) \<le> 0x39)
                               \<or> (0x41 \<le> (of_char c :: nat) \<and> (of_char c :: nat) \<le> 0x5A)) sn))"
  by (induction sn arbitrary: oc an) (auto simp: Let_def)

text \<open>
  What the validator computes: more than three digits or upper-case letters, and no
  character outside 0x20-0x7E. Lower-case letters are never counted: the test
  \<open>r <= 'a' && r >= 'z'\<close> of the source holds for no rune.
\<close>

lemma validSerial_iff:
  "validSerial sn \<longleftrightarrow>
     length (filter (\<lambda>c. (0x30 \<le> (of_char c :: nat) \<and> (of_char c :: nat) \<le> 0x39)
                        \<or> (0x41 \<le> (of_char c :: nat) \<and> (of_char c :: nat) \<le> 0x5A)) sn) > 3
     \<and> (\<forall>c \<in> set sn. 0x20 \<le> (of_char c :: nat) \<and> (of_char c :: nat) \<le> 0x7E)"
  by (auto simp: validSerial_def validSerial_loop_counts filter_empty_conv not_less not_le)

text \<open>
  C1 (fails on the code): a serial of four lower-case letters has more than 3
  alphanumeric characters and only printable ASCII, and the validator rejects it;
  the same letters in upper case are accepted.
\<close>

theorem validSerial_rejects_lowercase:
  "validSerial ''abcd'' = False \<and> validSerial ''ABCD'' = True"
  by (simp add: validSerial_def)

section \<open>Device reads\<close>

lemma Read_no_eeprom: "eeprom_len e = 0 \<Longrightarrow> Read dev e offs len s = (Err NoEeprom, s)"
  by (simp add: Read_def)

lemma Read_out_of_bounds:
  "eeprom_len e \<noteq> 0 \<Longrightarrow> eeprom_len e < offs \<Longrightarrow> Read dev e offs len s = (Err OffsetOutOfBounds, s)"
  by (simp add: Read_def)

lemma Read_at_end:
  "eeprom_len e \<noteq> 0 \<Longrightarrow> offs = eeprom_len e \<Longrightarrow> Read dev e offs len s = (Ok nil_slice, s)"
  by (simp add: Read_def)

lemma Read_in_range:
  "eeprom_len e \<noteq> 0 \<Longrightarrow> offs < eeprom_len e \<Longrightarrow>
   Read dev e offs len s =
     (case gmoduleeeprom dev (ifname e) offs (clamp_len e offs len) of
        Inl en \<Rightarrow> (Err (Errno en), s\<lparr>reads := reads s @ [(offs, clamp_len e offs len)]\<rparr>)
      | Inr written \<Rightarrow>
          (if unat (clamp_len e offs len) \<le> ETH_MODULE_SFF_8472_LEN
           then (Ok \<lparr>backing = take ETH_MODULE_SFF_8472_LEN
                                 (written @ replicate ETH_MODULE_SFF_8472_LEN 0),
                     slen = unat (clamp_len e offs len)\<rparr>,
                 s\<lparr>reads := reads s @ [(offs, clamp_len e offs len)]\<rparr>)
           else (Panic, s\<lparr>reads := reads s @ [(offs, clamp_len e offs len)]\<rparr>)))"
  by (auto simp: Read_def Let_def)

lemma Read_cases:
  fixes e :: "'a EthToolModule_scheme" and offs :: u32
  obtains "eeprom_len e = 0" | "eeprom_len e \<noteq> 0" "eeprom_len e < offs"
    | "eeprom_len e \<noteq> 0" "offs = eeprom_len e" | "eeprom_len e \<noteq> 0" "offs < eeprom_len e"
  by (metis linorder_neqE)

lemma Read_Ok:
  assumes "Read dev e offs len s = (Ok buf, s')"
  shows "(offs = eeprom_len e \<and> buf = nil_slice \<and> s' = s) \<or>
         (offs < eeprom_len e \<and> s' = s\<lparr>reads := reads s @ [(offs, clamp_len e offs len)]\<rparr>
            \<and> length (backing buf) = ETH_MODULE_SFF_8472_LEN)"
proof (cases rule: Read_cases[where e=e and offs=offs])
  case 1 then show ?thesis using assms by (simp add: Read_no_eeprom)
next
  case 2 then show ?thesis using assms by (simp add: Read_out_of_bounds)
next
  case 3 then show ?thesis using assms by (simp add: Read_at_end)
next
  case 4 then show ?thesis using assms
    by (auto simp: Read_in_range ETH_MODULE_SFF_8472_LEN_def split: sum.splits if_splits)
qed

lemma reslice_nil: "reslice nil_slice lo hi = Some sub \<Longrightarrow> hi = 0"
  by (simp add: reslice_def nil_slice_def split: if_splits)

lemma clamp_len_min:
  assumes "offs < eeprom_len e"
  shows "unat (clamp_len e offs len) = min (unat len) (unat (eeprom_len e) - unat offs)"
proof -
  have "unat (eeprom_len e - offs) = unat (eeprom_len e) - unat offs"
    using assms by (simp add: unat_sub word_le_nat_alt word_less_nat_alt)
  then show ?thesis
    by (auto simp: clamp_len_def word_less_nat_alt)
qed

section \<open>Read coalescing\<close>

lemma decode_query_nil:
  assumes "decode_query nil_slice (q # query) ret = Ok ret'"
  shows "def_i q < length txrEepromStatic \<and> length_f (txrEepromStatic ! def_i q) = 0"
proof -
  have in_range: "def_i q < length txrEepromStatic"
    using assms by (simp split: if_splits)
  obtain sub where sub: "reslice nil_slice (unat (buf_pos q))
      (unat (buf_pos q + length_f (txrEepromStatic ! def_i q))) = Some sub"
    using assms in_range by (simp add: Let_def split: option.splits)
  then have "unat (buf_pos q) = 0" "unat (buf_pos q + length_f (txrEepromStatic ! def_i q)) = 0"
    by (simp_all add: reslice_def nil_slice_def split: if_splits)
  then have "buf_pos q = 0" "buf_pos q + length_f (txrEepromStatic ! def_i q) = 0"
    by (simp_all add: unat_eq_0)
  then show ?thesis using in_range by simp
qed


lemma flush_Ok:
  assumes "flush dev e qdef ret query qs qe s = (Ok (ret', query'), s')" and "live query"
  shows "if query \<noteq> [] \<and> qe < offset qdef - GAP_MERGE
         then query' = [] \<and> s' = s\<lparr>reads := reads s @ [(qs, clamp_len e qs (qe - qs))]\<rparr>
         else query' = query \<and> s' = s \<and> ret' = ret"
proof (cases "query \<noteq> [] \<and> qe < offset qdef - GAP_MERGE")
  case False
  then show ?thesis using assms by (auto simp: flush_def)
next
  case True
  then obtain q rest where q: "query = q # rest" by (cases query) auto
  obtain r s1 where r: "Read dev e qs (qe - qs) s = (r, s1)" by fastforce
  have unf: "(case r of Err er \<Rightarrow> (Err er, s1) | Panic \<Rightarrow> (Panic, s1)
      | Ok buf \<Rightarrow> (case decode_query buf query ret of
                Ok ret' \<Rightarrow> (Ok (ret', []), s1)
              | Err er \<Rightarrow> (Err er, s1)
              | Panic \<Rightarrow> (Panic, s1))) = (Ok (ret', query'), s')"
    using assms(1) True by (simp add: flush_def r)
  then obtain buf where buf: "r = Ok buf"
    by (cases r) simp_all
  from unf buf obtain ret1 where dq: "decode_query buf query ret = Ok ret1" and s1: "s1 = s'" and q': "query' = []"
    by (cases "decode_query buf query ret") simp_all
  from Read_Ok[OF r[unfolded buf]] show ?thesis
  proof
    assume "qs = eeprom_len e \<and> buf = nil_slice \<and> s1 = s"
    then have nil: "buf = nil_slice" by blast
    have dead: "def_i q < length txrEepromStatic \<and> length_f (txrEepromStatic ! def_i q) = 0"
      by (rule decode_query_nil[OF dq[unfolded q nil]])
    have "\<not> (def_i q < length txrEepromStatic \<and> length_f (txrEepromStatic ! def_i q) = 0)"
      using assms(2) unfolding q live_def by simp
    with dead show ?thesis by blast
  next
    assume "qs < eeprom_len e \<and> s1 = s\<lparr>reads := reads s @ [(qs, clamp_len e qs (qe - qs))]\<rparr>
      \<and> length (backing buf) = ETH_MODULE_SFF_8472_LEN"
    with True s1 q' show ?thesis by simp
  qed
qed


lemma moduleInfo_loop_reads:
  assumes "moduleInfo_loop dev e flags ids ret query qs qe s = (Ok t, s')"
    and "live query"
    and "\<forall>(i, d) \<in> set ids. flag d AND flags \<noteq> 0 \<longrightarrow>
           \<not> (i < length txrEepromStatic \<and> length_f (txrEepromStatic ! i) = 0)"
  shows "s' = s\<lparr>reads := reads s @ map (\<lambda>(a, l). (a, clamp_len e a l))
                 (moduleInfo_spans flags (map snd ids) (query \<noteq> []) qs qe)\<rparr>"
  using assms
proof (induction ids arbitrary: ret query qs qe s)
  case Nil
  then show ?case by simp
next
  case (Cons a ids)
  obtain i qdef where a: "a = (i, qdef)" by (cases a)
  obtain r s1 where fl: "flush dev e qdef ret query qs qe s = (r, s1)" by fastforce
  with Cons.prems(1) a obtain ret1 query1 where r: "r = Ok (ret1, query1)"
    by (cases r) auto
  note F = flush_Ok[OF fl[unfolded r] Cons.prems(2)]
  have rest: "\<forall>(i, d) \<in> set ids. flag d AND flags \<noteq> 0 \<longrightarrow>
           \<not> (i < length txrEepromStatic \<and> length_f (txrEepromStatic ! i) = 0)"
    using Cons.prems(3) by simp
  have live1: "live query1" using F Cons.prems(2) by (auto simp: live_def split: if_splits)
  show ?case
  proof (cases "flag qdef AND flags \<noteq> 0")
    case False
    with Cons.prems(1) a fl r
    have "moduleInfo_loop dev e flags ids ret1 query1 qs qe s1 = (Ok t, s')" by simp
    from Cons.IH[OF this live1 rest] F False a show ?thesis
      by (auto simp: Let_def split: if_splits)
  next
    case True
    let ?qs = "if query1 = [] then offset qdef else qs"
    let ?q = "query1 @ [\<lparr>def_i = i, buf_pos = offset qdef - ?qs\<rparr>]"
    from True Cons.prems(1) a fl r
    have step: "moduleInfo_loop dev e flags ids ret1 ?q ?qs (offset qdef + length_f qdef) s1 = (Ok t, s')"
      by (simp add: Let_def)
    have "live ?q" using live1 True Cons.prems(3) a
      by (cases query1) (auto simp: live_def)
    from Cons.IH[OF step this rest] F True a show ?thesis
      by (auto simp: Let_def split: if_splits)
  qed
qed

lemma moduleInfo_spans_table:
  "moduleInfo_spans flags txrEepromStatic False 0 0 =
     map (\<lambda>(a, b). (of_nat a, of_nat (b - a)))
       (coalesce (map (\<lambda>d. (unat (offset d), unat (length_f d))) (selected_fields flags)) None)"
  by (cases "TXR_MI_VENDOR AND flags = 0"; cases "TXR_MI_OUI AND flags = 0";
      cases "TXR_MI_PRODUCT AND flags = 0"; cases "TXR_MI_REVISION AND flags = 0";
      cases "TXR_MI_WAVELEN AND flags = 0"; cases "TXR_MI_SERIAL AND flags = 0";
      simp add: txrEepromStatic_def selected_fields_def GAP_MERGE_def infty_def Let_def)

lemma table_live:
  "\<forall>(i, d) \<in> set (enumerate 0 txrEepromStatic). flag d AND flags \<noteq> 0 \<longrightarrow>
     \<not> (i < length txrEepromStatic \<and> length_f (txrEepromStatic ! i) = 0)"
  by (simp add: txrEepromStatic_def)

lemma moduleInfo_reads:
  assumes "moduleInfo dev e flags s = (Ok t, s')"
  shows "s' = s\<lparr>reads := reads s @ map (\<lambda>(a, l). (a, clamp_len e a l))
                 (moduleInfo_spans flags txrEepromStatic False 0 0)\<rparr>"
proof -
  have "moduleInfo_loop dev e flags (enumerate 0 txrEepromStatic) Map.empty [] 0 0 s = (Ok t, s')"
    using assms by (simp add: moduleInfo_def split: if_splits)
  from moduleInfo_loop_reads[OF this _ table_live] show ?thesis
    by (simp add: live_def)
qed

section \<open>Evaluating the model on the example device\<close>

lemmas flag_defs = TXR_MI_VENDOR_def TXR_MI_OUI_def TXR_MI_PRODUCT_def TXR_MI_REVISION_def
  TXR_MI_WAVELEN_def TXR_MI_SERIAL_def TXR_MI_DATE_def TXR_MI_ALL_def TXR_MI_ALLOW_CACHE_def

lemma lastchar_append:
  "lastchar (xs @ ys) i acc = lastchar ys (i + length xs) (lastchar xs i acc)"
  by (induction xs arbitrary: i acc) simp_all

lemma lastchar_zeros [simp]: "lastchar (replicate n 0) i acc = acc"
  by (induction n arbitrary: i) simp_all

lemma fromLatin1_zeros [simp]: "fromLatin1 (replicate n 0) = []"
  by (simp add: fromLatin1_def)

lemma show_nat_0 [simp]: "show_nat 0 = ''0''"
  by (simp add: show_nat.simps char_of_def bit_0)

lemma example_reads:
  "take 36 (drop 20 example_eeprom) = replicate 36 0"
  "take 16 (drop 20 example_eeprom) = replicate 16 0"
  "take 4 (drop 56 example_eeprom) = replicate 4 0"
  "take 42 (drop 20 example_eeprom) = replicate 42 0"
  "take 8 (drop 84 example_eeprom) = replicate 8 0"
  "take 16 (drop 68 example_eeprom) = [0x41, 0x42, 0x43, 0x31, 0x32, 0x33] @ replicate 10 0"
  "take 10 (drop 352 example_eeprom) = [0x27, 0x09, 0x80, 0x79, 0x0b, 0x5d, 0x14, 0xce, 0x16, 0x02]"
  by (simp_all add: example_eeprom_def)

lemma example_read_wavelen: "take 2 (drop 60 example_eeprom) = [0, 0]"
proof -
  have "take 2 (drop 60 example_eeprom) = replicate 2 0"
    by (simp add: example_eeprom_def)
  also have "replicate 2 (0 :: u8) = [0, 0]"
    by (simp add: numeral_2_eq_2)
  finally show ?thesis .
qed

lemmas eval_defs = moduleInfo_def example_device_def example_module_def empty_state_def
  txrEepromStatic_def flag_defs Read_def clamp_len_def flush_def Let_def reslice_def
  decodeStatic_def contents_def GAP_MERGE_def infty_def ETH_MODULE_SFF_8472_def
  ETH_MODULE_SFF_8472_LEN_def txr_DECODE_STRING_def txr_DECODE_INT_def txr_DECODE_OUI_def
  example_reads example_read_wavelen hex2_def hexdigit_def show_int_def char_of_def bit_0

section \<open>C4: coalescing of selected fields\<close>

subsection \<open>Reads that succeed\<close>

lemma clamp_len_id:
  assumes "unat offs + unat len \<le> unat (eeprom_len e)" and "0 < unat len"
  shows "clamp_len e offs len = len"
proof -
  have lt: "offs < eeprom_len e" using assms by (simp add: word_less_nat_alt)
  have "unat (clamp_len e offs len) = min (unat len) (unat (eeprom_len e) - unat offs)"
    by (rule clamp_len_min[OF lt])
  also have "\<dots> = unat len" using assms(1) by simp
  finally show ?thesis by (simp add: word_unat_eq_iff)
qed

lemma Read_succeeds:
  assumes "unat offs + unat len \<le> unat (eeprom_len e)" and "0 < unat len" and "unat len \<le> 512"
    and "gmoduleeeprom dev (ifname e) offs len = Inr w"
  shows "Read dev e offs len s =
           (Ok \<lparr>backing = take 512 (w @ replicate 512 0), slen = unat len\<rparr>,
            s\<lparr>reads := reads s @ [(offs, len)]\<rparr>)"
proof -
  have lt: "offs < eeprom_len e" using assms(1,2) by (simp add: word_less_nat_alt)
  then have ne: "eeprom_len e \<noteq> 0" by auto
  show ?thesis
    using assms(3,4)
    by (simp add: Read_in_range[OF ne lt] clamp_len_id[OF assms(1,2)] ETH_MODULE_SFF_8472_LEN_def)
qed

lemma decodeStatic_succeeds:
  assumes "decoder d = txr_DECODE_STRING \<or> decoder d = txr_DECODE_INT
          \<or> (decoder d = txr_DECODE_OUI \<and> 3 \<le> length (contents sub))"
  shows "\<exists>v. decodeStatic sub (decoder d) = Ok v"
proof -
  consider "decoder d = txr_DECODE_STRING" | "decoder d = txr_DECODE_INT"
    | "decoder d = txr_DECODE_OUI" "3 \<le> length (contents sub)"
    using assms by blast
  then show ?thesis
  proof cases
    case 1 then show ?thesis by (simp add: decodeStatic_def)
  next
    case 2 then show ?thesis
      by (simp add: decodeStatic_def txr_DECODE_STRING_def txr_DECODE_INT_def txr_DECODE_OUI_def)
  next
    case 3
    from 3(2) obtain b0 ys where ys: "contents sub = b0 # ys" "2 \<le> length ys"
      by (cases "contents sub") auto
    then obtain b1 zs where zs: "ys = b1 # zs" "1 \<le> length zs" by (cases ys) auto
    then obtain b2 rest where "zs = b2 # rest" by (cases zs) auto
    with ys zs 3(1) show ?thesis
      by (simp add: decodeStatic_def txr_DECODE_STRING_def txr_DECODE_OUI_def)
  qed
qed

lemma decode_query_succeeds:
  assumes "length (backing buf) = 512"
    and "\<forall>q \<in> set query. def_i q < length txrEepromStatic
           \<and> decodable (txrEepromStatic ! def_i q)
           \<and> unat (buf_pos q) + unat (length_f (txrEepromStatic ! def_i q)) \<le> 512"
  shows "\<exists>ret'. decode_query buf query ret = Ok ret'"
  using assms(2)
proof (induction query arbitrary: ret)
  case Nil
  show ?case by simp
next
  case (Cons q query)
  let ?d = "txrEepromStatic ! def_i q"
  from Cons.prems have i: "def_i q < length txrEepromStatic" and dec: "decodable ?d"
    and b: "unat (buf_pos q) + unat (length_f ?d) \<le> 512" by simp_all
  have sum: "unat (buf_pos q + length_f ?d) = unat (buf_pos q) + unat (length_f ?d)"
    using b by (simp add: unat_add_lem[THEN iffD1])
  let ?sub = "\<lparr>backing = drop (unat (buf_pos q)) (backing buf), slen = unat (length_f ?d)\<rparr>"
  have rs: "reslice buf (unat (buf_pos q)) (unat (buf_pos q + length_f ?d)) = Some ?sub"
    using b by (simp add: reslice_def sum assms(1))
  have len: "length (contents ?sub) = unat (length_f ?d)"
    using b by (simp add: contents_def assms(1))
  from dec have "decoder ?d = txr_DECODE_STRING \<or> decoder ?d = txr_DECODE_INT
          \<or> (decoder ?d = txr_DECODE_OUI \<and> 3 \<le> length (contents ?sub))"
    by (auto simp: decodable_def len)
  from decodeStatic_succeeds[OF this] obtain v where v: "decodeStatic ?sub (decoder ?d) = Ok v" ..
  from Cons.prems have "\<forall>q \<in> set query. def_i q < length txrEepromStatic
           \<and> decodable (txrEepromStatic ! def_i q)
           \<and> unat (buf_pos q) + unat (length_f (txrEepromStatic ! def_i q)) \<le> 512" by simp
  from Cons.IH[OF this, of "ret(name ?d \<mapsto> v)"]
  obtain ret' where r: "decode_query buf query (ret(name ?d \<mapsto> v)) = Ok ret'" ..
  have "decode_query buf (q # query) ret = Ok ret'"
    by (simp add: Let_def i rs v r)
  then show ?case by blast
qed

lemma flush_succeeds:
  assumes p: "pending_ok (unat (eeprom_len e)) query qs qe"
    and W: "\<And>offs len. gmoduleeeprom dev (ifname e) offs len = Inr (W offs len)"
  shows "\<exists>ret' query' s'. flush dev e qdef ret query qs qe s = (Ok (ret', query'), s')
           \<and> (query' = [] \<or> query' = query)"
proof (cases "query \<noteq> [] \<and> qe < offset qdef - GAP_MERGE")
  case False
  then show ?thesis by (auto simp: flush_def)
next
  case True
  with p have lt: "unat qs < unat qe" and le: "unat qe \<le> unat (eeprom_len e)"
    and le512: "unat qe \<le> 512"
    and qs: "\<forall>q \<in> set query. def_i q < length txrEepromStatic
           \<and> decodable (txrEepromStatic ! def_i q)
           \<and> unat qs \<le> unat (offset (txrEepromStatic ! def_i q))
           \<and> buf_pos q = offset (txrEepromStatic ! def_i q) - qs
           \<and> fend (txrEepromStatic ! def_i q) \<le> unat qe"
    by (simp_all add: pending_ok_def)
  have sub: "unat (qe - qs) = unat qe - unat qs"
    using lt by (simp add: unat_sub word_le_nat_alt)
  let ?buf = "\<lparr>backing = take 512 (W qs (qe - qs) @ replicate 512 0), slen = unat (qe - qs)\<rparr>"
  have rd: "Read dev e qs (qe - qs) s = (Ok ?buf, s\<lparr>reads := reads s @ [(qs, qe - qs)]\<rparr>)"
    by (rule Read_succeeds) (use lt le le512 sub W in simp_all)
  have "\<forall>q \<in> set query. def_i q < length txrEepromStatic
           \<and> decodable (txrEepromStatic ! def_i q)
           \<and> unat (buf_pos q) + unat (length_f (txrEepromStatic ! def_i q)) \<le> 512"
  proof
    fix q assume "q \<in> set query"
    with qs have i: "def_i q < length txrEepromStatic" and d: "decodable (txrEepromStatic ! def_i q)"
      and o: "unat qs \<le> unat (offset (txrEepromStatic ! def_i q))"
      and b: "buf_pos q = offset (txrEepromStatic ! def_i q) - qs"
      and f: "fend (txrEepromStatic ! def_i q) \<le> unat qe" by simp_all
    have "unat (buf_pos q) = unat (offset (txrEepromStatic ! def_i q)) - unat qs"
      using o by (simp add: b unat_sub word_le_nat_alt)
    with f le512 o i d show "def_i q < length txrEepromStatic
           \<and> decodable (txrEepromStatic ! def_i q)
           \<and> unat (buf_pos q) + unat (length_f (txrEepromStatic ! def_i q)) \<le> 512"
      by (simp add: fend_def)
  qed
  moreover have "length (backing ?buf) = 512" by simp
  ultimately have "\<exists>ret'. decode_query ?buf query ret = Ok ret'"
    by (rule decode_query_succeeds[rotated])
  then obtain ret' where "decode_query ?buf query ret = Ok ret'" ..
  with True rd show ?thesis by (simp add: flush_def)
qed

lemma selected_flag_nonzero: "flag d AND flags \<noteq> 0 \<Longrightarrow> flag d \<noteq> 0"
  by auto

lemma moduleInfo_loop_succeeds:
  assumes "table_ok lo hi ids"
    and "\<forall>(i, d) \<in> set ids. flag d AND flags \<noteq> 0 \<longrightarrow> fend d \<le> unat (eeprom_len e)"
    and "pending_ok (unat (eeprom_len e)) query qs qe"
    and "query \<noteq> [] \<longrightarrow> unat qs \<le> lo \<and> unat qe \<le> hi"
    and W: "\<And>offs len. gmoduleeeprom dev (ifname e) offs len = Inr (W offs len)"
  shows "\<exists>t s'. moduleInfo_loop dev e flags ids ret query qs qe s = (Ok t, s')"
  using assms(1-4)
proof (induction ids arbitrary: lo hi ret query qs qe s)
  case Nil
  show ?case by simp
next
  case (Cons a ids)
  obtain i d where a: "a = (i, d)" by (cases a)
  from Cons.prems(1) a have lo: "lo \<le> unat (offset d)" and hi: "hi \<le> fend d"
    and sel: "flag d \<noteq> 0 \<Longrightarrow> i < length txrEepromStatic \<and> txrEepromStatic ! i = d \<and> decodable d"
    and rest: "table_ok (unat (offset d)) (fend d) ids"
    by (simp_all split: if_splits)
  from Cons.prems(2) a have cov: "flag d AND flags \<noteq> 0 \<Longrightarrow> fend d \<le> unat (eeprom_len e)"
    and cov_rest: "\<forall>(i, d) \<in> set ids. flag d AND flags \<noteq> 0 \<longrightarrow> fend d \<le> unat (eeprom_len e)"
    by simp_all
  from flush_succeeds[OF Cons.prems(3) W, of d ret s]
  obtain ret1 query1 s1 where fl: "flush dev e d ret query qs qe s = (Ok (ret1, query1), s1)"
    and q1: "query1 = [] \<or> query1 = query" by blast
  have p1: "pending_ok (unat (eeprom_len e)) query1 qs qe"
    using q1 Cons.prems(3) by (auto simp: pending_ok_def)
  have b1: "query1 \<noteq> [] \<longrightarrow> unat qs \<le> lo \<and> unat qe \<le> hi"
    using q1 Cons.prems(4) by auto
  show ?case
  proof (cases "flag d AND flags \<noteq> 0")
    case False
    have "query1 \<noteq> [] \<longrightarrow> unat qs \<le> unat (offset d) \<and> unat qe \<le> fend d"
      using b1 lo hi by auto
    from Cons.IH[OF rest cov_rest p1 this, of ret1 s1] False a fl show ?thesis
      by simp
  next
    case True
    then have nz: "flag d \<noteq> 0" by (rule selected_flag_nonzero)
    note s = sel[OF nz]
    then have dec: "decodable d" and ti: "txrEepromStatic ! i = d" and il: "i < length txrEepromStatic"
      by simp_all
    from dec have len: "0 < unat (length_f d)" and f512: "fend d \<le> 512"
      by (simp_all add: decodable_def)
    let ?qs = "if query1 = [] then offset d else qs"
    let ?q = "query1 @ [\<lparr>def_i = i, buf_pos = offset d - ?qs\<rparr>]"
    let ?qe = "offset d + length_f d"
    have qe: "unat ?qe = fend d"
      using f512 by (simp add: fend_def unat_add_lem[THEN iffD1])
    have qs_le: "unat ?qs \<le> unat (offset d)" using b1 lo by auto
    have p: "pending_ok (unat (eeprom_len e)) ?q ?qs ?qe"
    proof (cases "query1 = []")
      case True
      then show ?thesis
        using len f512 cov[OF \<open>flag d AND flags \<noteq> 0\<close>] dec ti il qe
        by (simp add: pending_ok_def fend_def)
    next
      case False
      with p1 have old: "\<forall>q \<in> set query1. def_i q < length txrEepromStatic
           \<and> decodable (txrEepromStatic ! def_i q)
           \<and> unat qs \<le> unat (offset (txrEepromStatic ! def_i q))
           \<and> buf_pos q = offset (txrEepromStatic ! def_i q) - qs
           \<and> fend (txrEepromStatic ! def_i q) \<le> unat qe"
        by (simp add: pending_ok_def)
      have "unat qe \<le> fend d" using b1 hi False by auto
      with old have old': "\<forall>q \<in> set query1. def_i q < length txrEepromStatic
           \<and> decodable (txrEepromStatic ! def_i q)
           \<and> unat qs \<le> unat (offset (txrEepromStatic ! def_i q))
           \<and> buf_pos q = offset (txrEepromStatic ! def_i q) - qs
           \<and> fend (txrEepromStatic ! def_i q) \<le> fend d"
        by auto
      have "unat qs < fend d" using qs_le False len by (simp add: fend_def)
      with False old' show ?thesis
        using f512 cov[OF \<open>flag d AND flags \<noteq> 0\<close>] dec ti il qe qs_le
        by (simp add: pending_ok_def)
    qed
    have b: "?q \<noteq> [] \<longrightarrow> unat ?qs \<le> unat (offset d) \<and> unat ?qe \<le> fend d"
      using qs_le qe by simp
    from Cons.IH[OF rest cov_rest p b, of ret1 s1] True a fl show ?thesis
      by (simp add: Let_def)
  qed
qed

lemma table_ok_txrEepromStatic: "table_ok 0 0 (enumerate 0 txrEepromStatic)"
  by (simp add: txrEepromStatic_def fend_def decodable_def flag_defs infty_def
        txr_DECODE_STRING_def txr_DECODE_INT_def txr_DECODE_OUI_def)

lemma moduleInfo_succeeds:
  assumes "tpe e = ETH_MODULE_SFF_8472"
    and cov: "\<forall>d \<in> set (selected_fields flags).
           unat (offset d) + unat (length_f d) \<le> unat (eeprom_len e)"
    and dev: "\<forall>offs len. \<exists>w. gmoduleeeprom dev (ifname e) offs len = Inr w"
  shows "\<exists>t s'. moduleInfo dev e flags s = (Ok t, s')"
proof -
  from dev obtain W where W: "\<And>offs len. gmoduleeeprom dev (ifname e) offs len = Inr (W offs len)"
    by metis
  have c: "\<forall>(i, d) \<in> set (enumerate 0 txrEepromStatic).
             flag d AND flags \<noteq> 0 \<longrightarrow> fend d \<le> unat (eeprom_len e)"
    using cov by (auto simp: in_set_enumerate_eq selected_fields_def fend_def)
  have "\<exists>t s'. moduleInfo_loop dev e flags (enumerate 0 txrEepromStatic) Map.empty [] 0 0 s = (Ok t, s')"
    by (rule moduleInfo_loop_succeeds[OF table_ok_txrEepromStatic c _ _ W])
       (simp_all add: pending_ok_def)
  then show ?thesis using assms(1) by (simp add: moduleInfo_def)
qed

lemma coalesce_bounds:
  assumes "\<forall>(off, len) \<in> set fs. off + len \<le> M"
    and "case p of None \<Rightarrow> True | Some (a, b) \<Rightarrow> a \<le> M \<and> b \<le> M"
  shows "\<forall>(a, b) \<in> set (coalesce fs p). a \<le> M \<and> b \<le> M"
  using assms
  by (induction fs p rule: coalesce.induct) auto

lemma clamp_len_within:
  assumes "unat offs + unat len \<le> unat (eeprom_len e)"
  shows "clamp_len e offs len = len"
proof -
  have "offs \<le> eeprom_len e" using assms by (simp add: word_le_nat_alt)
  then have "unat (eeprom_len e - offs) = unat (eeprom_len e) - unat offs"
    by (simp add: unat_sub)
  then have "\<not> eeprom_len e - offs < len" using assms by (simp add: word_less_nat_alt)
  then show ?thesis by (simp add: clamp_len_def)
qed

lemma span_not_clamped:
  assumes "a \<le> unat (eeprom_len e)" and "b \<le> unat (eeprom_len e)"
  shows "clamp_len e (of_nat a) (of_nat (b - a)) = of_nat (b - a)"
proof -
  have "unat (eeprom_len e) < 2 ^ LENGTH(32)" by (rule unsigned_less)
  then have lt: "unat (eeprom_len e) < 2 ^ 32" by simp
  have ua: "unat (of_nat a :: u32) = a" and ub: "unat (of_nat (b - a) :: u32) = b - a"
    using assms lt by (simp_all add: unat_of_nat)
  show ?thesis
    by (rule clamp_len_within) (use assms in \<open>simp add: ua ub\<close>)
qed

text \<open>
  C4, amended. On a module of class 0x2 whose EEPROM holds every selected field (the end
  of each is within \<open>eeprom_len\<close>), behind a driver that answers every EEPROM request,
  \<open>moduleInfo\<close> returns a Tag Set, and the device reads it has issued are exactly the
  spans that the specification's planner computes from the selected fields, in order,
  one read per span, none of them shortened: a selected field joins the pending span if
  and only if its offset is at most \<open>GAP_MERGE\<close> = 4 bytes past the end of that span. In
  particular, when exactly two fields \<open>d1\<close>, \<open>d2\<close> are selected, a gap of at most 4
  bytes gives exactly one read, from the start of \<open>d1\<close> to the end of \<open>d2\<close>, and a gap
  of 5 bytes or more gives exactly two reads, one per field.
\<close>

theorem moduleInfo_coalesces:
  assumes "tpe e = ETH_MODULE_SFF_8472"
    and "\<forall>d \<in> set (selected_fields flags).
           unat (offset d) + unat (length_f d) \<le> unat (eeprom_len e)"
    and "\<forall>offs len. \<exists>w. gmoduleeeprom dev (ifname e) offs len = Inr w"
  shows "\<exists>t s'. moduleInfo dev e flags s = (Ok t, s')
       \<and> reads s' = reads s @ map (\<lambda>(a, b). (of_nat a, of_nat (b - a)))
            (coalesce (map (\<lambda>d. (unat (offset d), unat (length_f d))) (selected_fields flags)) None)
       \<and> (selected_fields flags = [d1, d2] \<and>
            unat (offset d2) \<le> unat (offset d1) + unat (length_f d1) + unat GAP_MERGE \<longrightarrow>
            reads s' = reads s @ [(offset d1,
                of_nat (unat (offset d2) + unat (length_f d2) - unat (offset d1)))])
       \<and> (selected_fields flags = [d1, d2] \<and>
            unat (offset d2) > unat (offset d1) + unat (length_f d1) + unat GAP_MERGE \<longrightarrow>
            reads s' = reads s @ [(offset d1, length_f d1), (offset d2, length_f d2)])"
proof -
  let ?F = "map (\<lambda>d. (unat (offset d), unat (length_f d))) (selected_fields flags)"
  let ?C = "coalesce ?F None"
  from moduleInfo_succeeds[OF assms] obtain t s' where ok: "moduleInfo dev e flags s = (Ok t, s')"
    by blast
  have "\<forall>(off, len) \<in> set ?F. off + len \<le> unat (eeprom_len e)"
    using assms(2) by auto
  then have bounds: "\<forall>(a, b) \<in> set ?C. a \<le> unat (eeprom_len e) \<and> b \<le> unat (eeprom_len e)"
    by (rule coalesce_bounds) simp
  have "map (\<lambda>(a, l). (a, clamp_len e a l)) (map (\<lambda>(a, b). (of_nat a, of_nat (b - a))) ?C)
          = map (\<lambda>(a, b). (of_nat a, of_nat (b - a))) ?C"
    using bounds by (auto simp: span_not_clamped)
  then have general: "reads s' = reads s @ map (\<lambda>(a, b). (of_nat a, of_nat (b - a))) ?C"
    by (simp add: moduleInfo_reads[OF ok] moduleInfo_spans_table)
  have "(selected_fields flags = [d1, d2] \<and>
            unat (offset d2) \<le> unat (offset d1) + unat (length_f d1) + unat GAP_MERGE \<longrightarrow>
            reads s' = reads s @ [(offset d1,
                of_nat (unat (offset d2) + unat (length_f d2) - unat (offset d1)))])
       \<and> (selected_fields flags = [d1, d2] \<and>
            unat (offset d2) > unat (offset d1) + unat (length_f d1) + unat GAP_MERGE \<longrightarrow>
            reads s' = reads s @ [(offset d1, length_f d1), (offset d2, length_f d2)])"
    using general by auto
  with ok general show ?thesis by blast
qed

text \<open>
  Witness on the example device: vendor and product (flags 5, gap 4) are served by one
  read of 36 bytes at 0x14, which ends where product ends; vendor and revision (flags 9,
  gap 20) by two reads. The 256-byte module on eth1 holds vendor and product as well,
  and is read the same way.
\<close>

theorem moduleInfo_coalesces_witness:
  "selected_fields 5 = [txrEepromStatic ! 0, txrEepromStatic ! 2]
   \<and> (\<exists>t s'. moduleInfo example_device example_module 5 empty_state = (Ok t, s')
          \<and> reads s' = [(0x14, 36)])
   \<and> selected_fields 9 = [txrEepromStatic ! 0, txrEepromStatic ! 3]
   \<and> (\<exists>t s'. moduleInfo example_device example_module 9 empty_state = (Ok t, s')
          \<and> reads s' = [(0x14, 16), (0x38, 4)])
   \<and> (\<exists>t s'. moduleInfo example_device \<lparr>ifname = ''eth1'', tpe = 2, eeprom_len = 256\<rparr> 5
                 empty_state = (Ok t, s')
          \<and> reads s' = [(0x14, 36)])"
proof -
  have sel5: "selected_fields 5 = [txrEepromStatic ! 0, txrEepromStatic ! 2]"
    and sel9: "selected_fields 9 = [txrEepromStatic ! 0, txrEepromStatic ! 3]"
    by (simp_all add: selected_fields_def txrEepromStatic_def flag_defs)
  have t: "tpe example_module = ETH_MODULE_SFF_8472"
    by (simp add: example_module_def ETH_MODULE_SFF_8472_def)
  have d: "\<forall>offs len. \<exists>w. gmoduleeeprom example_device (ifname example_module) offs len = Inr w"
    by (simp add: example_device_def)
  have c5: "\<forall>d \<in> set (selected_fields 5).
              unat (offset d) + unat (length_f d) \<le> unat (eeprom_len example_module)"
    and c9: "\<forall>d \<in> set (selected_fields 9).
              unat (offset d) + unat (length_f d) \<le> unat (eeprom_len example_module)"
    by (simp_all add: sel5 sel9 txrEepromStatic_def example_module_def)
  from moduleInfo_coalesces[OF t c5 d, of empty_state "txrEepromStatic ! 0" "txrEepromStatic ! 2"]
  have five: "\<exists>t s'. moduleInfo example_device example_module 5 empty_state = (Ok t, s')
          \<and> reads s' = [(0x14, 36)]"
    by (simp add: sel5 txrEepromStatic_def GAP_MERGE_def empty_state_def)
  from moduleInfo_coalesces[OF t c9 d, of empty_state "txrEepromStatic ! 0" "txrEepromStatic ! 3"]
  have nine: "\<exists>t s'. moduleInfo example_device example_module 9 empty_state = (Ok t, s')
          \<and> reads s' = [(0x14, 16), (0x38, 4)]"
    by (simp add: sel9 txrEepromStatic_def GAP_MERGE_def empty_state_def)
  have t1: "tpe \<lparr>ifname = ''eth1'', tpe = 2, eeprom_len = 256\<rparr> = ETH_MODULE_SFF_8472"
    by (simp add: ETH_MODULE_SFF_8472_def)
  have d1: "\<forall>offs len. \<exists>w. gmoduleeeprom example_device
              (ifname \<lparr>ifname = ''eth1'', tpe = 2, eeprom_len = 256\<rparr>) offs len = Inr w"
    by (simp add: example_device_def)
  have c1: "\<forall>d \<in> set (selected_fields 5). unat (offset d) + unat (length_f d)
              \<le> unat (eeprom_len \<lparr>ifname = ''eth1'', tpe = 2, eeprom_len = 256\<rparr>)"
    by (simp add: sel5 txrEepromStatic_def)
  from moduleInfo_coalesces[OF t1 c1 d1, of empty_state "txrEepromStatic ! 0" "txrEepromStatic ! 2"]
  have short: "\<exists>t s'. moduleInfo example_device \<lparr>ifname = ''eth1'', tpe = 2, eeprom_len = 256\<rparr> 5
                 empty_state = (Ok t, s') \<and> reads s' = [(0x14, 36)]"
    by (simp add: sel5 txrEepromStatic_def GAP_MERGE_def empty_state_def)
  from sel5 sel9 five nine short show ?thesis by blast
qed

lemma example_read_short: "take 12 (drop 20 example_eeprom) = replicate 12 0"
  by (simp add: example_eeprom_def)

text \<open>
  As stated the claim fails on an EEPROM that ends before the second field. With 0x20
  bytes and vendor and product selected (gap 4), \<open>moduleInfo\<close> returns a Tag Set after
  one read of 12 bytes at 0x14: \<open>Read\<close> has cut the span at the end of the EEPROM, the
  read ends before product begins at 0x28, and product is decoded from the zero bytes
  of the buffer behind it.
\<close>

theorem moduleInfo_short_eeprom_one_clamped_read:
  "selected_fields 5 = [txrEepromStatic ! 0, txrEepromStatic ! 2]
   \<and> name (txrEepromStatic ! 2) = ''product'' \<and> offset (txrEepromStatic ! 2) = 0x28
   \<and> moduleInfo example_device \<lparr>ifname = ''eth0'', tpe = 2, eeprom_len = 0x20\<rparr> 5 empty_state
       = (Ok [''vendor'' \<mapsto> [], ''product'' \<mapsto> []],
          \<lparr>reads = [(0x14, 12)], moduleCache = Map.empty\<rparr>)"
  by (simp add: selected_fields_def moduleInfo_def example_device_def empty_state_def
        txrEepromStatic_def flag_defs Read_def clamp_len_def flush_def Let_def reslice_def
        decodeStatic_def contents_def GAP_MERGE_def infty_def ETH_MODULE_SFF_8472_def
        ETH_MODULE_SFF_8472_LEN_def txr_DECODE_STRING_def txr_DECODE_INT_def txr_DECODE_OUI_def
        example_read_short fromLatin1_def lastchar_append)

section \<open>C2: one field name, one key\<close>

text \<open>
  The keys of a returned Tag Set are the names of the selected fields, for every flag
  set; so a flag set built from one of vendor, oui, product, revision and serial gives
  exactly that key, and one built from wavelen or from mfgdate gives both.
\<close>

lemma decode_query_dom:
  "decode_query buf query ret = Ok ret' \<Longrightarrow>
     dom ret' = dom ret \<union> set (map (\<lambda>j. name (txrEepromStatic ! j)) (map def_i query))"
proof (induction query arbitrary: ret)
  case Nil
  then show ?case by simp
next
  case (Cons q query)
  from Cons.prems obtain sub v where
    "decode_query buf query (ret(name (txrEepromStatic ! def_i q) \<mapsto> v)) = Ok ret'"
    by (auto simp: Let_def split: if_splits option.splits result.splits)
  from Cons.IH[OF this] show ?case by auto
qed

lemma flush_dom:
  assumes "flush dev e qdef ret query qs qe s = (Ok (ret', query'), s')"
  shows "if query \<noteq> [] \<and> qe < offset qdef - GAP_MERGE
         then query' = [] \<and> dom ret' = dom ret \<union> set (map (\<lambda>j. name (txrEepromStatic ! j)) (map def_i query))
         else query' = query \<and> ret' = ret"
proof (cases "query \<noteq> [] \<and> qe < offset qdef - GAP_MERGE")
  case False
  then show ?thesis using assms by (auto simp: flush_def)
next
  case True
  obtain r s1 where r: "Read dev e qs (qe - qs) s = (r, s1)" by fastforce
  have unf: "(case r of Err er \<Rightarrow> (Err er, s1) | Panic \<Rightarrow> (Panic, s1)
      | Ok buf \<Rightarrow> (case decode_query buf query ret of
                Ok ret' \<Rightarrow> (Ok (ret', []), s1)
              | Err er \<Rightarrow> (Err er, s1)
              | Panic \<Rightarrow> (Panic, s1))) = (Ok (ret', query'), s')"
    using assms(1) True by (simp add: flush_def r)
  then obtain buf where buf: "r = Ok buf"
    by (cases r) simp_all
  from unf buf have dq: "decode_query buf query ret = Ok ret'" and q': "query' = []"
    by (cases "decode_query buf query ret"; simp)+
  from decode_query_dom[OF dq] q' True show ?thesis by simp
qed

lemma moduleInfo_loop_dom:
  assumes "moduleInfo_loop dev e flags ids ret query qs qe s = (Ok t, s')"
  shows "dom t = dom ret \<union> set (moduleInfo_names flags ids (map def_i query) qe)"
  using assms
proof (induction ids arbitrary: ret query qs qe s)
  case Nil
  then show ?case by simp
next
  case (Cons a ids)
  obtain i qdef where a: "a = (i, qdef)" by (cases a)
  obtain r s1 where fl: "flush dev e qdef ret query qs qe s = (r, s1)" by fastforce
  with Cons.prems(1) a obtain ret1 query1 where r: "r = Ok (ret1, query1)"
    by (cases r) auto
  note F = flush_dom[OF fl[unfolded r]]
  show ?case
  proof (cases "flag qdef AND flags \<noteq> 0")
    case False
    with Cons.prems(1) a fl r
    have "moduleInfo_loop dev e flags ids ret1 query1 qs qe s1 = (Ok t, s')" by simp
    from Cons.IH[OF this] F False a show ?thesis
      by (auto simp: Let_def split: if_splits)
  next
    case True
    let ?qs = "if query1 = [] then offset qdef else qs"
    let ?q = "query1 @ [\<lparr>def_i = i, buf_pos = offset qdef - ?qs\<rparr>]"
    from True Cons.prems(1) a fl r
    have step: "moduleInfo_loop dev e flags ids ret1 ?q ?qs (offset qdef + length_f qdef) s1 = (Ok t, s')"
      by (simp add: Let_def)
    from Cons.IH[OF step] F True a show ?thesis
      by (auto simp: Let_def split: if_splits)
  qed
qed

lemma moduleInfo_names_table:
  "moduleInfo_names flags (enumerate 0 txrEepromStatic) [] 0 = map name (selected_fields flags)"
  by (cases "TXR_MI_VENDOR AND flags = 0"; cases "TXR_MI_OUI AND flags = 0";
      cases "TXR_MI_PRODUCT AND flags = 0"; cases "TXR_MI_REVISION AND flags = 0";
      cases "TXR_MI_WAVELEN AND flags = 0"; cases "TXR_MI_SERIAL AND flags = 0";
      simp add: txrEepromStatic_def selected_fields_def GAP_MERGE_def infty_def Let_def)

lemma moduleInfo_keys:
  assumes "moduleInfo dev e flags s = (Ok t, s')"
  shows "dom t = name ` set (selected_fields flags)"
proof -
  have "moduleInfo_loop dev e flags (enumerate 0 txrEepromStatic) Map.empty [] 0 0 s = (Ok t, s')"
    using assms by (simp add: moduleInfo_def split: if_splits)
  from moduleInfo_loop_dom[OF this] show ?thesis
    by (simp add: moduleInfo_names_table)
qed

lemma GetTxrInfoFlags_single:
  "GetTxrInfoFlags [''vendor''] = Ok TXR_MI_VENDOR"
  "GetTxrInfoFlags [''oui''] = Ok TXR_MI_OUI"
  "GetTxrInfoFlags [''product''] = Ok TXR_MI_PRODUCT"
  "GetTxrInfoFlags [''revision''] = Ok TXR_MI_REVISION"
  "GetTxrInfoFlags [''wavelen''] = Ok TXR_MI_WAVELEN"
  "GetTxrInfoFlags [''serial''] = Ok TXR_MI_SERIAL"
  "GetTxrInfoFlags [''mfgdate''] = Ok TXR_MI_WAVELEN"
  by (simp_all add: GetTxrInfoFlags_def txrEepromStatic_def flag_defs)

lemma selected_single:
  "map name (selected_fields TXR_MI_VENDOR) = [''vendor'']"
  "map name (selected_fields TXR_MI_OUI) = [''oui'']"
  "map name (selected_fields TXR_MI_PRODUCT) = [''product'']"
  "map name (selected_fields TXR_MI_REVISION) = [''revision'']"
  "map name (selected_fields TXR_MI_WAVELEN) = [''wavelen'', ''mfgdate'']"
  "map name (selected_fields TXR_MI_SERIAL) = [''serial'']"
  by (simp_all add: selected_fields_def txrEepromStatic_def flag_defs)

lemma single_field_keys:
  assumes "f \<in> {''vendor'', ''oui'', ''product'', ''revision'', ''serial''}"
    and "GetTxrInfoFlags [f] = Ok fl" and "moduleInfo dev e fl s = (Ok t, s')"
  shows "dom t = {f}"
proof -
  have keys: "dom t = set (map name (selected_fields fl))"
    using moduleInfo_keys[OF assms(3)] by simp
  from assms(1) consider "f = ''vendor''" | "f = ''oui''" | "f = ''product''"
    | "f = ''revision''" | "f = ''serial''" by blast
  then show ?thesis
  proof cases
    case 1 with assms(2) have "fl = TXR_MI_VENDOR" by (simp add: GetTxrInfoFlags_single)
    with keys 1 show ?thesis by (simp add: selected_single)
  next
    case 2 with assms(2) have "fl = TXR_MI_OUI" by (simp add: GetTxrInfoFlags_single)
    with keys 2 show ?thesis by (simp add: selected_single)
  next
    case 3 with assms(2) have "fl = TXR_MI_PRODUCT" by (simp add: GetTxrInfoFlags_single)
    with keys 3 show ?thesis by (simp add: selected_single)
  next
    case 4 with assms(2) have "fl = TXR_MI_REVISION" by (simp add: GetTxrInfoFlags_single)
    with keys 4 show ?thesis by (simp add: selected_single)
  next
    case 5 with assms(2) have "fl = TXR_MI_SERIAL" by (simp add: GetTxrInfoFlags_single)
    with keys 5 show ?thesis by (simp add: selected_single)
  qed
qed

lemma shared_flag_keys:
  assumes "f = ''wavelen'' \<or> f = ''mfgdate''"
    and "GetTxrInfoFlags [f] = Ok fl" and "moduleInfo dev e fl s = (Ok t, s')"
  shows "dom t = {''wavelen'', ''mfgdate''}"
proof -
  have keys: "dom t = set (map name (selected_fields fl))"
    using moduleInfo_keys[OF assms(3)] by simp
  from assms(1,2) have "fl = TXR_MI_WAVELEN" by (auto simp: GetTxrInfoFlags_single)
  with keys show ?thesis by (simp add: selected_single)
qed
text \<open>
  C2 (fails on the code for mfgdate and wavelen): the table gives mfgdate the flag
  \<open>TXR_MI_WAVELEN\<close> (\<open>TXR_MI_DATE\<close> is never used), so the flag set built from
  \<open>["mfgdate"]\<close> is that of wavelen, and \<open>moduleInfo\<close> with it returns both keys.
\<close>

theorem mfgdate_selects_wavelen_too:
  "GetTxrInfoFlags [''mfgdate''] = Ok TXR_MI_WAVELEN
   \<and> fst (moduleInfo example_device example_module TXR_MI_WAVELEN empty_state)
       = Ok [''wavelen'' \<mapsto> ''0'', ''mfgdate'' \<mapsto> []]
   \<and> reads (snd (moduleInfo example_device example_module TXR_MI_WAVELEN empty_state))
       = [(0x3c, 2), (0x54, 8)]"
  by (simp add: GetTxrInfoFlags_def eval_defs)

section \<open>C10: the diagnostic read at the end of the EEPROM\<close>

lemma TxrDiag_loop_5:
  "TxrDiag_loop data i 5 w = TxrDiag_loop data i (Suc (Suc (Suc (Suc (Suc 0))))) w"
  by (simp add: eval_nat_numeral)

lemma list_len2:
  assumes "length xs = 2"
  shows "\<exists>a b. xs = [a, b]"
proof (cases xs)
  case Nil
  with assms show ?thesis by simp
next
  case (Cons a ys)
  with assms have "length ys = 1" by simp
  then obtain b where "ys = [b]" by (cases ys) auto
  with Cons show ?thesis by blast
qed

lemma TxrDiag_loop_full:
  assumes "i * 2 + k * 2 \<le> length (backing data)"
  shows "\<exists>w'. TxrDiag_loop data i k w = Some w' \<and> length w' = length w + k"
  using assms
proof (induction k arbitrary: i w)
  case 0
  then show ?case by simp
next
  case (Suc k)
  have "i * 2 + 2 \<le> length (backing data)" using Suc.prems by simp
  then have "length (take 2 (drop (i * 2) (backing data))) = 2" by simp
  from list_len2[OF this] obtain b0 b1 where "take 2 (drop (i * 2) (backing data)) = [b0, b1]"
    by blast
  then show ?case using Suc.IH[of "i + 1" "w @ [real (256 * unat b0 + unat b1)]"] Suc.prems
    by (simp add: reslice_def contents_def)
qed

lemma clamp_len_le: "clamp_len e offs len \<le> len"
  by (auto simp: clamp_len_def)

lemma clamp_len_le_rest: "clamp_len e offs len \<le> eeprom_len e - offs"
  by (auto simp: clamp_len_def)

lemma list_len5:
  assumes "length xs = 5"
  shows "\<exists>a b c d e. xs = [a, b, c, d, e]"
proof -
  from assms have "length xs = Suc (Suc (Suc (Suc (Suc 0))))" by simp
  then show ?thesis by (auto simp: length_Suc_conv)
qed

lemma TxrDiag_no_panic:
  assumes "eeprom_len e \<noteq> 0x160"
  shows "fst (TxrDiag dev e s) \<noteq> Panic"
proof (cases "tpe e = ETH_MODULE_SFF_8472")
  case False
  then show ?thesis by (simp add: TxrDiag_def)
next
  case True
  show ?thesis
  proof (cases rule: Read_cases[where e=e and offs="0x160"])
    case 1
    then show ?thesis using True by (simp add: TxrDiag_def Read_no_eeprom)
  next
    case 2
    then show ?thesis using True by (simp add: TxrDiag_def Read_out_of_bounds)
  next
    case 3
    then show ?thesis using assms by simp
  next
    case 4
    let ?c = "clamp_len e 0x160 10"
    have c: "unat ?c \<le> ETH_MODULE_SFF_8472_LEN"
      using clamp_len_le[of e "0x160" 10] by (simp add: word_le_nat_alt ETH_MODULE_SFF_8472_LEN_def)
    show ?thesis
    proof (cases "gmoduleeeprom dev (ifname e) 0x160 ?c")
      case (Inl en)
      then show ?thesis using True 4 by (simp add: TxrDiag_def Read_in_range)
    next
      case (Inr written)
      let ?data = "\<lparr>backing = take ETH_MODULE_SFF_8472_LEN (written @ replicate ETH_MODULE_SFF_8472_LEN 0),
                     slen = unat ?c\<rparr>"
      have "0 * 2 + 5 * 2 \<le> length (backing ?data)"
        by (simp add: ETH_MODULE_SFF_8472_LEN_def)
      from TxrDiag_loop_full[OF this, of "[]"] obtain w where
        w: "TxrDiag_loop ?data 0 5 [] = Some w" "length w = 5" by auto
      from list_len5[OF w(2)] obtain w0 w1 w2 w3 w4 where "w = [w0, w1, w2, w3, w4]" by blast
      with w(1) Inr True 4 c show ?thesis
        by (simp add: TxrDiag_def Read_in_range Let_def)
    qed
  qed
qed

text \<open>
  C10 (fails on the code at one length): a module reporting an EEPROM of exactly 0x160
  bytes makes \<open>Read\<close> return the nil slice without error, and \<open>data[0:2]\<close> panics.
  For every other length \<open>TxrDiag\<close> returns an error or a record
  (\<open>TxrDiag_no_panic\<close>): a read clamped to fewer than 10 bytes still has the
  512-byte request buffer as its capacity.
\<close>

theorem TxrDiag_panics_at_page_start:
  "TxrDiag example_device \<lparr>ifname = ''eth0'', tpe = 2, eeprom_len = 0x160\<rparr> empty_state
     = (Panic, empty_state)"
  by (simp add: TxrDiag_def eval_defs nil_slice_def TxrDiag_loop_5)

section \<open>C9: the contract of \<open>Read\<close>\<close>

lemma example_read_tail: "take 4 (drop 508 example_eeprom) = [0, 0, 0, 0]"
proof -
  have "take 4 (drop 508 example_eeprom) = replicate 4 0"
    by (simp add: example_eeprom_def)
  also have "replicate 4 (0 :: u8) = [0, 0, 0, 0]"
    by (simp add: eval_nat_numeral)
  finally show ?thesis .
qed

text \<open>
  C9, amended. \<open>Read\<close> fails when the EEPROM length is zero and when the offset is
  beyond it, and returns the empty result without error when the offset equals it.
  Otherwise it clamps the length to the smaller of the requested length and the EEPROM
  length minus the offset, and issues exactly one device request of that length; it
  returns the error of that request if it fails and, when the clamped length fits the
  request buffer of \<open>ETH_MODULE_SFF_8472_LEN\<close> = 512 bytes, exactly the bytes the
  driver wrote.
\<close>

theorem Read_contract:
  "(eeprom_len e = 0 \<longrightarrow> Read dev e offs len s = (Err NoEeprom, s))
   \<and> (eeprom_len e \<noteq> 0 \<and> eeprom_len e < offs \<longrightarrow> Read dev e offs len s = (Err OffsetOutOfBounds, s))
   \<and> (eeprom_len e \<noteq> 0 \<and> offs = eeprom_len e \<longrightarrow>
        Read dev e offs len s = (Ok nil_slice, s) \<and> contents nil_slice = [])
   \<and> (eeprom_len e \<noteq> 0 \<and> offs < eeprom_len e \<longrightarrow>
        unat (clamp_len e offs len) = min (unat len) (unat (eeprom_len e) - unat offs)
        \<and> snd (Read dev e offs len s) = s\<lparr>reads := reads s @ [(offs, clamp_len e offs len)]\<rparr>
        \<and> (gmoduleeeprom dev (ifname e) offs (clamp_len e offs len) = Inl en \<longrightarrow>
             fst (Read dev e offs len s) = Err (Errno en))
        \<and> (gmoduleeeprom dev (ifname e) offs (clamp_len e offs len) = Inr written
             \<and> length written = unat (clamp_len e offs len)
             \<and> unat (clamp_len e offs len) \<le> ETH_MODULE_SFF_8472_LEN \<longrightarrow>
             (\<exists>buf. fst (Read dev e offs len s) = Ok buf \<and> contents buf = written)))"
  by (auto simp: Read_no_eeprom Read_out_of_bounds Read_at_end Read_in_range clamp_len_min
        contents_def nil_slice_def ETH_MODULE_SFF_8472_LEN_def split: sum.splits)

text \<open>
  Witness: the cases on the example device; the read of the diagnostic page returns
  its ten bytes, and a read of ten bytes at 508 is clamped to the last four.
\<close>

theorem Read_contract_witness:
  "Read example_device \<lparr>ifname = ''eth0'', tpe = 2, eeprom_len = 0\<rparr> 0x160 10 empty_state
      = (Err NoEeprom, empty_state)
   \<and> Read example_device example_module 600 10 empty_state = (Err OffsetOutOfBounds, empty_state)
   \<and> Read example_device example_module 512 10 empty_state = (Ok nil_slice, empty_state)
   \<and> clamp_len example_module 0x160 10 = 10
   \<and> reads (snd (Read example_device example_module 0x160 10 empty_state)) = [(0x160, 10)]
   \<and> (\<exists>buf. fst (Read example_device example_module 0x160 10 empty_state) = Ok buf
         \<and> contents buf = [0x27, 0x09, 0x80, 0x79, 0x0b, 0x5d, 0x14, 0xce, 0x16, 0x02])
   \<and> clamp_len example_module 508 10 = 4
   \<and> reads (snd (Read example_device example_module 508 10 empty_state)) = [(508, 4)]
   \<and> (\<exists>buf. fst (Read example_device example_module 508 10 empty_state) = Ok buf
         \<and> contents buf = [0, 0, 0, 0])"
proof -
  note page = Read_contract[of example_module example_device "0x160" 10 empty_state _
         "[0x27, 0x09, 0x80, 0x79, 0x0b, 0x5d, 0x14, 0xce, 0x16, 0x02]"]
  note tail = Read_contract[of example_module example_device 508 10 empty_state _ "[0, 0, 0, 0]"]
  have "unat (clamp_len example_module 0x160 10) = 10"
    using page by (simp add: example_module_def)
  then have c: "clamp_len example_module 0x160 10 = 10"
    by (simp add: word_unat_eq_iff)
  have "unat (clamp_len example_module 508 10) = 4"
    using tail by (simp add: example_module_def)
  then have c4: "clamp_len example_module 508 10 = 4"
    by (simp add: word_unat_eq_iff)
  have w: "gmoduleeeprom example_device (ifname example_module) 0x160 10
             = Inr [0x27, 0x09, 0x80, 0x79, 0x0b, 0x5d, 0x14, 0xce, 0x16, 0x02]"
    by (simp add: example_device_def example_reads)
  have w4: "gmoduleeeprom example_device (ifname example_module) 508 4 = Inr [0, 0, 0, 0]"
    by (simp add: example_device_def example_read_tail)
  show ?thesis
    using Read_contract[of "\<lparr>ifname = ''eth0'', tpe = 2, eeprom_len = 0\<rparr>" example_device "0x160" 10 empty_state]
      Read_contract[of example_module example_device 600 10 empty_state]
      Read_contract[of example_module example_device 512 10 empty_state]
      page tail c c4 w w4
    by (simp add: example_module_def empty_state_def ETH_MODULE_SFF_8472_LEN_def)
qed

text \<open>
  As stated (for every length) the claim fails: a request whose clamped length exceeds
  the 512-byte request buffer panics at \<open>eeprom.data[:len]\<close>.
\<close>

theorem Read_panics_beyond_buffer:
  "Read large_device \<lparr>ifname = ''eth0'', tpe = 2, eeprom_len = 1024\<rparr> 0 600 empty_state
     = (Panic, \<lparr>reads = [(0, 600)], moduleCache = Map.empty\<rparr>)"
  by (simp add: Read_def clamp_len_def large_device_def empty_state_def ETH_MODULE_SFF_8472_LEN_def)

section \<open>C5: decoding the diagnostic page\<close>

lemma TxrDiag_loop_page:
  "TxrDiag_loop \<lparr>backing = 0x27 # 0x09 # 0x80 # 0x79 # 0x0b # 0x5d # 0x14 # 0xce # 0x16 # 0x02 # rest, slen = n\<rparr> 0 5 []
     = Some [9993, 32889, 2909, 5326, 5634]"
  by (simp add: TxrDiag_loop_5 reslice_def contents_def)

text \<open>
  C5, amended. On a supported module whose 10-byte read at 0x160 returns
  \<open>27 09 80 79 0b 5d 14 ce 16 02\<close>, \<open>TxrDiag\<close> returns a record with temperature
  0x2709/256 = 39.03515625 (39.04 to two decimals), voltage 3.2889 V, bias 5.818 mA,
  transmit power 0x14ce/10000 mW and receive power 0x1602/10000 mW, and both dBm values
  are 10 times the decimal logarithm of the power in mW.
\<close>

theorem TxrDiag_decodes_page:
  assumes "tpe e = ETH_MODULE_SFF_8472" and "0x160 < eeprom_len e"
    and "gmoduleeeprom dev (ifname e) 0x160 (clamp_len e 0x160 10)
           = Inr [0x27, 0x09, 0x80, 0x79, 0x0b, 0x5d, 0x14, 0xce, 0x16, 0x02]"
  shows "\<exists>d. fst (TxrDiag dev e s) = Ok d
           \<and> temperature_C d = 9993 / 256 \<and> \<bar>temperature_C d - 39.04\<bar> < 0.005
           \<and> voltage_V d = 3.2889
           \<and> bias_mA d = 5.818
           \<and> transmit_mW d = 0x14ce / 10000
           \<and> receive_mW d = 0x1602 / 10000
           \<and> transmit_dBm d = Finite (log 10 (transmit_mW d) * 10)
           \<and> receive_dBm d = Finite (log 10 (receive_mW d) * 10)"
proof -
  have ne: "eeprom_len e \<noteq> 0" using assms(2) by auto
  have c: "unat (clamp_len e 0x160 10) \<le> ETH_MODULE_SFF_8472_LEN"
    using clamp_len_le[of e "0x160" 10] by (simp add: word_le_nat_alt ETH_MODULE_SFF_8472_LEN_def)
  show ?thesis
    using assms(1) c
    by (simp add: TxrDiag_def Read_in_range[OF ne assms(2)] assms(3) ETH_MODULE_SFF_8472_LEN_def
         TxrDiag_loop_page Let_def txr_MULT_C_def txr_MULT_V_def txr_MULT_mA_def txr_MULT_mW_def
         Log10_times_10_def)
qed

text \<open>Witness: the example device holds this page.\<close>

theorem TxrDiag_decodes_page_witness:
  "\<exists>d. fst (TxrDiag example_device example_module empty_state) = Ok d
           \<and> temperature_C d = 9993 / 256 \<and> \<bar>temperature_C d - 39.04\<bar> < 0.005
           \<and> voltage_V d = 3.2889
           \<and> bias_mA d = 5.818
           \<and> transmit_mW d = 0x14ce / 10000
           \<and> receive_mW d = 0x1602 / 10000
           \<and> transmit_dBm d = Finite (log 10 (transmit_mW d) * 10)
           \<and> receive_dBm d = Finite (log 10 (receive_mW d) * 10)"
proof -
  have "tpe example_module = ETH_MODULE_SFF_8472" and "0x160 < eeprom_len example_module"
    by (simp_all add: example_module_def ETH_MODULE_SFF_8472_def)
  moreover have "gmoduleeeprom example_device (ifname example_module) 0x160
       (clamp_len example_module 0x160 10) = Inr [0x27, 0x09, 0x80, 0x79, 0x0b, 0x5d, 0x14, 0xce, 0x16, 0x02]"
    by (simp add: example_device_def example_module_def clamp_len_def example_reads)
  ultimately show ?thesis by (rule TxrDiag_decodes_page)
qed

text \<open>
  As stated the claim fails: the decoded temperature is further than 0.37 from 38.66
  and the decoded bias further than 0.03 from 5.85.
\<close>

theorem TxrDiag_page_not_38_66:
  "(case fst (TxrDiag example_device example_module empty_state) of
      Ok d \<Rightarrow> \<bar>temperature_C d - 38.66\<bar> > 0.37 \<and> \<bar>bias_mA d - 5.85\<bar> > 0.03
    | Err er \<Rightarrow> False
    | Panic \<Rightarrow> False)"
  by (simp add: TxrDiag_def eval_defs TxrDiag_loop_page
        txr_MULT_C_def txr_MULT_V_def txr_MULT_mA_def txr_MULT_mW_def Log10_times_10_def)

section \<open>C6: the cache hit of \<open>ModuleInfo\<close>\<close>

lemma moduleInfo_serial:
  assumes "tpe e = ETH_MODULE_SFF_8472"
  shows "moduleInfo dev e TXR_MI_SERIAL s =
     (case Read dev e 0x44 16 s of
        (Ok buf, s') \<Rightarrow>
          (case reslice buf 0 16 of
             None \<Rightarrow> (Panic, s')
           | Some sub \<Rightarrow> (Ok [''serial'' \<mapsto> fromLatin1 (contents sub)], s'))
      | (Err er, s') \<Rightarrow> (Err er, s')
      | (Panic, s') \<Rightarrow> (Panic, s'))"
  using assms
  by (simp add: moduleInfo_def txrEepromStatic_def flag_defs flush_def GAP_MERGE_def infty_def
        decodeStatic_def txr_DECODE_STRING_def Let_def
        split: prod.splits result.splits option.splits)

lemma moduleInfo_serial_read:
  assumes "tpe e = ETH_MODULE_SFF_8472" and "0x44 < eeprom_len e"
    and "gmoduleeeprom dev (ifname e) 0x44 (clamp_len e 0x44 16) = Inr written"
  shows "moduleInfo dev e TXR_MI_SERIAL s =
           (Ok [''serial'' \<mapsto> fromLatin1 (take 16 (written @ replicate 512 0))],
            s\<lparr>reads := reads s @ [(0x44, clamp_len e 0x44 16)]\<rparr>)"
proof -
  have ne: "eeprom_len e \<noteq> 0" using assms(2) by auto
  have c: "unat (clamp_len e 0x44 16) \<le> ETH_MODULE_SFF_8472_LEN"
    using clamp_len_le[of e "0x44" 16] by (simp add: word_le_nat_alt ETH_MODULE_SFF_8472_LEN_def)
  define B where "B = take ETH_MODULE_SFF_8472_LEN (written @ replicate ETH_MODULE_SFF_8472_LEN 0)"
  have len: "length B = 512"
    by (simp add: B_def ETH_MODULE_SFF_8472_LEN_def)
  have "take 16 B = take (min 16 512) (written @ replicate 512 0)"
    unfolding B_def ETH_MODULE_SFF_8472_LEN_def by (rule take_take)
  then have t16: "take 16 B = take 16 (written @ replicate 512 0)" by simp
  have "Read dev e 0x44 16 s =
          (Ok \<lparr>backing = B, slen = unat (clamp_len e 0x44 16)\<rparr>,
           s\<lparr>reads := reads s @ [(0x44, clamp_len e 0x44 16)]\<rparr>)"
    using c by (simp add: Read_in_range[OF ne assms(2)] assms(3) B_def)
  then show ?thesis
    by (simp add: moduleInfo_serial[OF assms(1)] reslice_def contents_def len t16)
qed

lemma ModuleInfo_hit:
  assumes "flags = TXR_MI_ALLOW_CACHE"
    and "tpe e = ETH_MODULE_SFF_8472" and "0x44 < eeprom_len e"
    and "gmoduleeeprom dev (ifname e) 0x44 (clamp_len e 0x44 16) = Inr written"
    and "sn = fromLatin1 (take 16 (written @ replicate 512 0))"
    and "validSerial sn" and "moduleCache s sn = Some cached"
  shows "ModuleInfo dev e flags s =
           (Ok cached, s\<lparr>reads := reads s @ [(0x44, clamp_len e 0x44 16)]\<rparr>)"
  using assms(1,5,6,7)
  by (simp add: ModuleInfo_def moduleInfo_serial_read[OF assms(2,3,4)])




section \<open>C3: the second call and the cache\<close>

lemma spans_all_but_serial:
  "moduleInfo_spans (TXR_MI_ALLOW_CACHE AND NOT TXR_MI_SERIAL) txrEepromStatic False 0 0
     = [(0x14, 42), (0x54, 8)]"
  by (simp add: txrEepromStatic_def flag_defs GAP_MERGE_def infty_def Let_def)

lemma ModuleInfo_Ok_supported:
  assumes "ModuleInfo dev e flags s = (Ok t, s')"
  shows "tpe e = ETH_MODULE_SFF_8472"
proof (rule ccontr)
  assume "tpe e \<noteq> ETH_MODULE_SFF_8472"
  then have "\<And>f st. moduleInfo dev e f st = (Err (UnsupportedModule (tpe e)), st)"
    by (simp add: moduleInfo_def)
  with assms show False
    by (simp add: ModuleInfo_def ModuleInfo_read_def split: if_splits)
qed

text \<open>
  For a supported module whose serial field decodes to a serial that \<open>validSerial\<close>
  accepts and that is not yet a key of the cache: if a \<open>ModuleInfo\<close> call with flags
  \<open>TXR_MI_ALLOW_CACHE\<close> returns a Tag Set, then the next call with the same flags
  returns the same Tag Set and issues exactly one device read, of the serial field, while
  the first call has issued three (the serial, the span 0x14-0x3e, the manufacture date).
\<close>

lemma ModuleInfo_second_call_cached:
  assumes "0x44 < eeprom_len e"
    and "gmoduleeeprom dev (ifname e) 0x44 (clamp_len e 0x44 16) = Inr written"
    and "sn = fromLatin1 (take 16 (written @ replicate 512 0))"
    and "validSerial sn" and "moduleCache s sn = None"
    and "ModuleInfo dev e TXR_MI_ALLOW_CACHE s = (Ok t1, s1)"
  shows "ModuleInfo dev e TXR_MI_ALLOW_CACHE s1
           = (Ok t1, s1\<lparr>reads := reads s1 @ [(0x44, clamp_len e 0x44 16)]\<rparr>)
         \<and> reads s1 = reads s @ [(0x44, clamp_len e 0x44 16), (0x14, clamp_len e 0x14 42),
                                    (0x54, clamp_len e 0x54 8)]
         \<and> t1 ''serial'' = Some sn"
proof -
  have tpe: "tpe e = ETH_MODULE_SFF_8472" by (rule ModuleInfo_Ok_supported[OF assms(6)])
  let ?sa = "s\<lparr>reads := reads s @ [(0x44, clamp_len e 0x44 16)]\<rparr>"
  let ?f = "TXR_MI_ALLOW_CACHE AND NOT TXR_MI_SERIAL"
  have first: "ModuleInfo_read dev e TXR_MI_ALLOW_CACHE (Some sn) ?sa = (Ok t1, s1)"
    using assms(3,4,5,6)
    by (simp add: ModuleInfo_def moduleInfo_serial_read[OF tpe assms(1,2)])
  obtain r sb where full: "moduleInfo dev e ?f ?sa = (r, sb)" by fastforce
  with first obtain ret where r: "r = Ok ret"
    by (cases r) (simp_all add: ModuleInfo_read_def)
  from first full r have t1: "t1 = ret(''serial'' \<mapsto> sn)"
    and s1: "s1 = sb\<lparr>moduleCache := (moduleCache sb)(sn \<mapsto> t1)\<rparr>"
    by (auto simp: ModuleInfo_read_def Let_def)
  have sb: "sb = ?sa\<lparr>reads := reads ?sa @ [(0x14, clamp_len e 0x14 42), (0x54, clamp_len e 0x54 8)]\<rparr>"
    using moduleInfo_reads[OF full[unfolded r]] by (simp add: spans_all_but_serial)
  have cached: "moduleCache s1 sn = Some t1" by (simp add: s1)
  have "ModuleInfo dev e TXR_MI_ALLOW_CACHE s1
           = (Ok t1, s1\<lparr>reads := reads s1 @ [(0x44, clamp_len e 0x44 16)]\<rparr>)"
    by (rule ModuleInfo_hit[OF refl tpe assms(1,2,3,4) cached])
  moreover have "reads s1 = reads s @ [(0x44, clamp_len e 0x44 16), (0x14, clamp_len e 0x14 42),
                                    (0x54, clamp_len e 0x54 8)]"
    by (simp add: s1 sb)
  ultimately show ?thesis using t1 by simp
qed

lemma example_serial:
  "fromLatin1 (take 16 (([0x41, 0x42, 0x43, 0x31, 0x32, 0x33] @ replicate 10 0) @ replicate 512 0))
     = ''ABC123''"
  by (simp add: fromLatin1_def lastchar_append char_of_def bit_0)

lemma example_serial_read:
  "gmoduleeeprom example_device (ifname example_module) 0x44 (clamp_len example_module 0x44 16)
         = Inr ([0x41, 0x42, 0x43, 0x31, 0x32, 0x33] @ replicate 10 0)"
  by (simp add: clamp_len_def example_module_def example_device_def example_reads)

lemma replicate_small:
  "replicate 2 x = [x, x]" "replicate 3 x = [x, x, x]"
  by (simp_all add: numeral_2_eq_2 numeral_3_eq_3)

lemma example_first_call:
  "ModuleInfo example_device example_module TXR_MI_ALLOW_CACHE empty_state
     = (Ok example_tags, warm_state)"
  by (simp add: ModuleInfo_def ModuleInfo_read_def eval_defs validSerial_def fromLatin1_def
        lastchar_append example_tags_def warm_state_def replicate_small)

text \<open>The example module, from the empty cache.\<close>

lemma ModuleInfo_second_call_cached_example:
  "validSerial ''ABC123'' \<and> moduleCache empty_state ''ABC123'' = None
   \<and> ModuleInfo example_device example_module TXR_MI_ALLOW_CACHE empty_state
        = (Ok example_tags, warm_state)
   \<and> ModuleInfo example_device example_module TXR_MI_ALLOW_CACHE warm_state
        = (Ok example_tags, warm_state\<lparr>reads := reads warm_state @ [(0x44, 16)]\<rparr>)
   \<and> reads warm_state = reads empty_state @ [(0x44, 16), (0x14, 42), (0x54, 8)]"
proof -
  have v: "validSerial ''ABC123''" by (simp add: validSerial_def)
  have n: "moduleCache empty_state ''ABC123'' = None" by (simp add: empty_state_def)
  have l: "0x44 < eeprom_len example_module" by (simp add: example_module_def)
  show ?thesis
    using ModuleInfo_second_call_cached[OF l example_serial_read example_serial[symmetric] v n
        example_first_call] v n example_first_call
    by (simp add: clamp_len_def example_module_def)
qed

lemma lowercase_reads:
  "take 42 (drop 20 lowercase_eeprom) = replicate 42 0"
  "take 8 (drop 84 lowercase_eeprom) = replicate 8 0"
  "take 16 (drop 68 lowercase_eeprom) = [0x61, 0x62, 0x63, 0x64, 0x65, 0x66] @ replicate 10 0"
  by (simp_all add: lowercase_eeprom_def)

lemma lowercase_call:
  "ModuleInfo lowercase_device example_module TXR_MI_ALLOW_CACHE \<lparr>reads = rs, moduleCache = c\<rparr>
     = (Ok lowercase_tags,
        \<lparr>reads = rs @ [(0x44, 16), (0x14, 42), (0x54, 8)],
         moduleCache = c(''abcdef'' \<mapsto> lowercase_tags)\<rparr>)"
  by (simp add: ModuleInfo_def ModuleInfo_read_def moduleInfo_def example_module_def
        txrEepromStatic_def flag_defs Read_def clamp_len_def flush_def Let_def reslice_def
        decodeStatic_def contents_def GAP_MERGE_def infty_def ETH_MODULE_SFF_8472_def
        ETH_MODULE_SFF_8472_LEN_def txr_DECODE_STRING_def txr_DECODE_INT_def txr_DECODE_OUI_def
        hex2_def hexdigit_def show_int_def char_of_def bit_0
        lowercase_device_def lowercase_reads validSerial_def fromLatin1_def
        lastchar_append lowercase_tags_def replicate_small)

text \<open>
  C3 (fails on the code for a serial with lower-case letters): the serial abcdef has six
  alphanumeric characters and no character outside printable ASCII, but \<open>validSerial\<close>
  rejects it (see C1), so \<open>ModuleInfo\<close> never looks it up in the cache. Starting from
  the empty cache, the first call and the second call return the same Tag Set and issue
  the same three device reads each: the second call does not issue fewer reads, and
  reads more than the serial field.
\<close>

theorem ModuleInfo_lowercase_serial_never_cached:
  "ModuleInfo lowercase_device example_module TXR_MI_ALLOW_CACHE empty_state
     = (Ok lowercase_tags,
        \<lparr>reads = [(0x44, 16), (0x14, 42), (0x54, 8)],
         moduleCache = [''abcdef'' \<mapsto> lowercase_tags]\<rparr>)
   \<and> ModuleInfo lowercase_device example_module TXR_MI_ALLOW_CACHE
        \<lparr>reads = [(0x44, 16), (0x14, 42), (0x54, 8)],
         moduleCache = [''abcdef'' \<mapsto> lowercase_tags]\<rparr>
     = (Ok lowercase_tags,
        \<lparr>reads = [(0x44, 16), (0x14, 42), (0x54, 8), (0x44, 16), (0x14, 42), (0x54, 8)],
         moduleCache = [''abcdef'' \<mapsto> lowercase_tags]\<rparr>)"
  by (simp add: lowercase_call empty_state_def)

section \<open>C7: one record per interface\<close>

lemma NewExporter_flags_value: "NewExporter_flags = Ok TXR_MI_ALLOW_CACHE"
  by (simp add: NewExporter_flags_def GetTxrInfoFlags_def transcieverFullLabels_def
        txrEepromStatic_def flag_defs)

lemma collectIface_iface:
  "collectIface dev flags iface s = (Ok r, s') \<Longrightarrow>
     rec_iface r = iface \<and> (rec_err r \<noteq> None \<longrightarrow> rec_metrics r = None)
     \<and> (rec_err r = None \<longrightarrow> rec_metrics r \<noteq> None)"
  by (auto simp: collectIface_def split: sum.splits prod.splits result.splits)

lemma CollectIfacesSerially_Ok:
  assumes "CollectIfacesSerially dev flags ifaces s ch = (Ok (), s', ch')"
  shows "\<exists>recs. ch' = ch @ recs \<and> map rec_iface recs = ifaces
           \<and> (\<forall>r \<in> set recs. (rec_err r \<noteq> None \<longrightarrow> rec_metrics r = None)
                                \<and> (rec_err r = None \<longrightarrow> rec_metrics r \<noteq> None)
                                \<and> (\<exists>st st'. collectIface dev flags (rec_iface r) st = (Ok r, st')))"
  using assms
proof (induction ifaces arbitrary: s ch)
  case Nil
  then show ?case by simp
next
  case (Cons iface ifaces)
  obtain x s1 where c: "collectIface dev flags iface s = (x, s1)" by fastforce
  with Cons.prems obtain r where x: "x = Ok r" by (cases x) simp_all
  from Cons.prems c x
  have "CollectIfacesSerially dev flags ifaces s1 (ch @ [r]) = (Ok (), s', ch')" by simp
  from Cons.IH[OF this] obtain recs where recs: "ch' = (ch @ [r]) @ recs"
      "map rec_iface recs = ifaces"
      "\<forall>r \<in> set recs. (rec_err r \<noteq> None \<longrightarrow> rec_metrics r = None)
                          \<and> (rec_err r = None \<longrightarrow> rec_metrics r \<noteq> None)
                          \<and> (\<exists>st st'. collectIface dev flags (rec_iface r) st = (Ok r, st'))"
    by blast
  note r = collectIface_iface[OF c[unfolded x]]
  have "\<exists>st st'. collectIface dev flags (rec_iface r) st = (Ok r, st')"
    using c x r by auto
  with r recs show ?case by (intro exI[of _ "r # recs"]) simp
qed

text \<open>
  C7, amended. For every list of interface names, a run of the serial collector that
  does not panic emits exactly one Collection Record per interface, in list order, each
  the result of the loop body for its interface; a record carries an error exactly when
  it carries no Diagnostics Record. When the module cannot be opened or the Tag Set
  fetch fails, the record carries the error, an empty Tag Set and no diagnostics; when
  the diagnostic read fails, the record carries the error, no diagnostics, and the Tag
  Set that was fetched.
\<close>

theorem CollectIfacesSerially_records:
  assumes "CollectIfacesSerially dev flags ifaces s ch = (Ok (), s', ch')"
  shows "(\<exists>recs. ch' = ch @ recs \<and> map rec_iface recs = ifaces
           \<and> (\<forall>r \<in> set recs. (rec_err r \<noteq> None \<longrightarrow> rec_metrics r = None)
                                \<and> (rec_err r = None \<longrightarrow> rec_metrics r \<noteq> None)
                                \<and> (\<exists>st st'. collectIface dev flags (rec_iface r) st = (Ok r, st'))))
       \<and> (NewEthToolModule dev iface = Inl err \<longrightarrow>
            collectIface dev flags iface st
              = (Ok \<lparr>rec_iface = iface, rec_err = Some err, rec_tags = Map.empty, rec_metrics = None\<rparr>, st))
       \<and> (NewEthToolModule dev iface = Inr m \<and> ModuleInfo dev m flags st = (Err err, st1) \<longrightarrow>
            collectIface dev flags iface st
              = (Ok \<lparr>rec_iface = iface, rec_err = Some err, rec_tags = Map.empty, rec_metrics = None\<rparr>, st1))
       \<and> (NewEthToolModule dev iface = Inr m \<and> ModuleInfo dev m flags st = (Ok tags, st1)
            \<and> TxrDiag dev m st1 = (Err err, st2) \<longrightarrow>
            collectIface dev flags iface st
              = (Ok \<lparr>rec_iface = iface, rec_err = Some err, rec_tags = tags, rec_metrics = None\<rparr>, st2))"
  using CollectIfacesSerially_Ok[OF assms] by (simp add: collectIface_def)

lemma example_diag:
  "TxrDiag example_device \<lparr>ifname = ifn, tpe = 2, eeprom_len = 512\<rparr> s
     = (Ok example_metrics, s\<lparr>reads := reads s @ [(0x160, 10)]\<rparr>)"
  by (simp add: TxrDiag_def Read_def clamp_len_def example_device_def example_reads
        ETH_MODULE_SFF_8472_def ETH_MODULE_SFF_8472_LEN_def TxrDiag_loop_page Let_def
        txr_MULT_C_def txr_MULT_V_def txr_MULT_mA_def txr_MULT_mW_def Log10_times_10_def
        example_metrics_def)

lemma example_diag_short:
  "TxrDiag example_device \<lparr>ifname = ifn, tpe = 2, eeprom_len = 256\<rparr> s = (Err OffsetOutOfBounds, s)"
  by (simp add: TxrDiag_def Read_def ETH_MODULE_SFF_8472_def)

lemma example_first_call_any:
  "ModuleInfo example_device \<lparr>ifname = ifn, tpe = 2, eeprom_len = 512\<rparr> TXR_MI_ALLOW_CACHE empty_state
     = (Ok example_tags, warm_state)"
  "ModuleInfo example_device \<lparr>ifname = ifn, tpe = 2, eeprom_len = 256\<rparr> TXR_MI_ALLOW_CACHE empty_state
     = (Ok example_tags, warm_state)"
  by (simp_all add: ModuleInfo_def ModuleInfo_read_def eval_defs validSerial_def fromLatin1_def
        lastchar_append example_tags_def warm_state_def replicate_small)

lemma example_hit_any:
  "l = 512 \<or> l = 256 \<Longrightarrow>
   ModuleInfo example_device \<lparr>ifname = ifn, tpe = 2, eeprom_len = l\<rparr> TXR_MI_ALLOW_CACHE
      \<lparr>reads = rs, moduleCache = [''ABC123'' \<mapsto> example_tags]\<rparr>
     = (Ok example_tags, \<lparr>reads = rs @ [(0x44, 16)], moduleCache = [''ABC123'' \<mapsto> example_tags]\<rparr>)"
  by (rule trans[OF ModuleInfo_hit[OF refl _ _ _ example_serial[symmetric], where cached = example_tags]])
     (auto simp: ETH_MODULE_SFF_8472_def clamp_len_def example_device_def example_reads validSerial_def)

lemma example_collect:
  "CollectIfacesSerially example_device TXR_MI_ALLOW_CACHE [''eth0'', ''eth1'', ''eth2''] empty_state []
     = (Ok (),
        \<lparr>reads = [(0x44, 16), (0x14, 42), (0x54, 8), (0x160, 10), (0x44, 16)],
          moduleCache = [''ABC123'' \<mapsto> example_tags]\<rparr>,
        [\<lparr>rec_iface = ''eth0'', rec_err = None, rec_tags = example_tags,
            rec_metrics = Some example_metrics\<rparr>,
         \<lparr>rec_iface = ''eth1'', rec_err = Some OffsetOutOfBounds, rec_tags = example_tags,
            rec_metrics = None\<rparr>,
         \<lparr>rec_iface = ''eth2'', rec_err = Some (Errno 19), rec_tags = Map.empty,
            rec_metrics = None\<rparr>])"
  by (simp add: collectIface_def NewEthToolModule_def IFNAMSIZ_def example_device_def[THEN arg_cong, of gmoduleinfo]
        example_first_call_any example_diag example_diag_short example_hit_any warm_state_def)

text \<open>
  Witness: three interfaces of the example device; eth2 cannot be opened.
\<close>

theorem CollectIfacesSerially_records_witness:
  "fst (CollectIfacesSerially example_device TXR_MI_ALLOW_CACHE [''eth0'', ''eth1'', ''eth2''] empty_state [])
     = Ok ()
   \<and> map rec_iface (snd (snd (CollectIfacesSerially example_device TXR_MI_ALLOW_CACHE
         [''eth0'', ''eth1'', ''eth2''] empty_state []))) = [''eth0'', ''eth1'', ''eth2'']
   \<and> map rec_err (snd (snd (CollectIfacesSerially example_device TXR_MI_ALLOW_CACHE
         [''eth0'', ''eth1'', ''eth2''] empty_state [])))
       = [None, Some OffsetOutOfBounds, Some (Errno 19)]
   \<and> map rec_metrics (snd (snd (CollectIfacesSerially example_device TXR_MI_ALLOW_CACHE
         [''eth0'', ''eth1'', ''eth2''] empty_state [])))
       = [Some example_metrics, None, None]
   \<and> NewEthToolModule example_device ''eth2'' = Inl (Errno 19)
   \<and> collectIface example_device TXR_MI_ALLOW_CACHE ''eth2'' empty_state
       = (Ok \<lparr>rec_iface = ''eth2'', rec_err = Some (Errno 19), rec_tags = Map.empty,
              rec_metrics = None\<rparr>, empty_state)"
proof -
  have open_fails: "NewEthToolModule example_device ''eth2'' = Inl (Errno 19)"
    by (simp add: NewEthToolModule_def IFNAMSIZ_def example_device_def)
  show ?thesis
    using CollectIfacesSerially_records[OF example_collect, of "''eth2''" "Errno 19" empty_state]
      example_collect open_fails
    by simp
qed

text \<open>
  As stated the claim fails: on eth1 (256 bytes of EEPROM) the Tag Set is fetched and
  the diagnostic read fails, and the emitted record carries the error together with the
  full Tag Set, not an empty one.
\<close>

theorem failed_diagnostic_read_keeps_tags:
  "CollectIfacesSerially example_device TXR_MI_ALLOW_CACHE [''eth1''] empty_state []
     = (Ok (), warm_state,
        [\<lparr>rec_iface = ''eth1'', rec_err = Some OffsetOutOfBounds, rec_tags = example_tags,
            rec_metrics = None\<rparr>])
   \<and> example_tags ''serial'' = Some ''ABC123''"
  by (simp add: collectIface_def NewEthToolModule_def IFNAMSIZ_def example_device_def[THEN arg_cong, of gmoduleinfo]
        example_first_call_any example_diag_short example_tags_def)
section \<open>C8: one line per record\<close>

lemma show_nat_digit: "n < 10 \<Longrightarrow> show_nat n = [char_of (48 + n)]"
  by (simp add: show_nat.simps)

text \<open>
  No tag, field or timestamp contains a newline: control characters in tag values are
  escaped. So the success case is one line ending in its only newline (when the number
  formatter prints none), and the failure case always has two newlines.
\<close>

lemma digit_not_newline: "(n :: nat) < 10 \<Longrightarrow> char_of (48 + n) \<noteq> CHR 0x0A"
proof
  assume n: "n < 10" and "char_of (48 + n) = CHR 0x0A"
  then have "(of_char (char_of (48 + n)) :: nat) = of_char (CHR 0x0A)" by simp
  with n show False by simp
qed

lemma show_nat_no_newline: "CHR 0x0A \<notin> set (show_nat n)"
proof (induction n rule: show_nat.induct)
  case (1 n)
  show ?case
  proof (cases "n < 10")
    case True
    then show ?thesis using digit_not_newline[of n] by (simp add: show_nat.simps[of n])
  next
    case False
    have "n mod 10 < 10" by simp
    from digit_not_newline[OF this] 1[OF False] False show ?thesis
      by (simp add: show_nat.simps[of n])
  qed
qed

lemma show_int_no_newline: "CHR 0x0A \<notin> set (show_int i)"
  by (simp add: show_int_def show_nat_no_newline)

lemma whiteChars_no_newline: "CHR 0x0A \<notin> set (whiteChars v)"
  by (induction v) (auto simp: whiteChars_def is_cntrl_or_space_def)

lemma escapeChars_no_newline: "CHR 0x0A \<notin> set v \<Longrightarrow> CHR 0x0A \<notin> set (escapeChars v)"
  by (induction v) (auto simp: escapeChars_def)

lemma join_no_newline:
  "\<forall>x \<in> set xs. CHR 0x0A \<notin> set x \<Longrightarrow> CHR 0x0A \<notin> set (join xs '','')"
  by (induction xs "'',''" rule: join.induct) auto

lemma tagList_no_newline:
  "\<forall>l \<in> set labels. CHR 0x0A \<notin> set l \<Longrightarrow>
   \<forall>x \<in> set (InfluxChan_tagList strerror r labels). CHR 0x0A \<notin> set x"
  by (induction labels)
     (auto simp: Let_def escapeChars_no_newline whiteChars_no_newline)

lemma tagStr_no_newline:
  "CHR 0x0A \<notin> set (join (InfluxChan_tagList strerror r transcieverFullLabels) '','')"
  by (rule join_no_newline, rule tagList_no_newline) (simp add: transcieverFullLabels_def)

lemma Influxdb_success_one_line:
  assumes "rec_err r = None" and "rec_metrics r = Some m"
    and "\<And>p x. CHR 0x0A \<notin> set (fmt_f p x)"
  shows "\<exists>l. Influxdb_line strerror fmt_f nowi r = Some (l @ '' '' @ show_int nowi @ [CHR 0x0A])
            \<and> CHR 0x0A \<notin> set l \<and> CHR 0x0A \<notin> set (show_int nowi)"
  using assms tagStr_no_newline[of strerror r]
  by (simp add: Influxdb_line_def InfluxChan_Emit_def Let_def namespace_def show_int_no_newline)

lemma Influxdb_failure_two_newlines:
  assumes "rec_err r = Some err"
  shows "\<exists>l. Influxdb_line strerror fmt_f nowi r
              = Some (l @ [CHR 0x0A] @ '' '' @ show_int nowi @ [CHR 0x0A])
            \<and> CHR 0x0A \<notin> set l \<and> CHR 0x0A \<notin> set (show_int nowi)"
  using assms tagStr_no_newline[of strerror r]
  by (simp add: Influxdb_line_def InfluxChan_Emit_def Let_def namespace_def show_int_no_newline)
text \<open>
  C8 (fails on the code in the failure case): for a record with an error, \<open>Emit\<close> sends
  a string that already ends in a newline, and \<open>Influxdb\<close> appends the space, the
  timestamp and another newline: the output is two lines, the timestamp alone on the
  second.
\<close>

theorem Influxdb_failure_spans_two_lines:
  "Influxdb_line strerror fmt_f 7
     \<lparr>rec_iface = ''eth0'', rec_err = Some NoEeprom, rec_tags = Map.empty, rec_metrics = None\<rparr>
   = Some (''ethtool_transciever,iface=eth0,error=ethtool:'' @ [CHR 0x5C]
           @ '' No'' @ [CHR 0x5C] @ '' EEPROM'' @ [CHR 0x5C] @ '' to'' @ [CHR 0x5C]
           @ '' read. present=0i'' @ [CHR 0x0A] @ '' 7'' @ [CHR 0x0A])"
  by (simp add: Influxdb_line_def InfluxChan_Emit_def transcieverFullLabels_def namespace_def
        Error_text_def dangerousChars_def whiteChars_def escapeChars_def is_cntrl_or_space_def
        show_int_def show_nat_digit char_of_def bit_0 Let_def)

end
